theory Spec2Isabelle
  imports Complex_Main
begin

section \<open>Tenant quota counters (models/Tenant.js)\<close>

text \<open>
  The \<open>subscription\<close> sub-document of the Tenant schema. The counters are JavaScript
  numbers that start at the schema default 0 and are only ever changed by adding or
  subtracting 1, so they are integers; \<open>resetDate\<close> is a timestamp in milliseconds.
\<close>

datatype plan = Free | Pro | Enterprise

record subscription =
  plan :: plan
  maxDocuments :: int
  currentDocuments :: int
  maxQueriesPerMonth :: int
  currentQueries :: int
  resetDate :: int

record tenant =
  name :: string
  subscription :: subscription

text \<open>
  \<^verbatim>\<open>
  tenantSchema.methods.incrementDocumentCount = function () {
    this.subscription.currentDocuments += 1;
    return this.save();
  };
  tenantSchema.methods.decrementDocumentCount = function () {
    if (this.subscription.currentDocuments > 0) {
      this.subscription.currentDocuments -= 1;
    }
    return this.save();
  };
  \<close>
  Both methods mutate the tenant and persist it; the model returns the tenant as saved.
\<close>

definition canUploadDocument :: "tenant \<Rightarrow> bool" where
  "canUploadDocument t \<longleftrightarrow>
     currentDocuments (subscription t) < maxDocuments (subscription t)"

definition incrementDocumentCount :: "tenant \<Rightarrow> tenant" where
  "incrementDocumentCount t =
     t\<lparr>subscription := (subscription t)
          \<lparr>currentDocuments := currentDocuments (subscription t) + 1\<rparr>\<rparr>"

definition decrementDocumentCount :: "tenant \<Rightarrow> tenant" where
  "decrementDocumentCount t =
     (if currentDocuments (subscription t) > 0
      then t\<lparr>subscription := (subscription t)
             \<lparr>currentDocuments := currentDocuments (subscription t) - 1\<rparr>\<rparr>
      else t)"

text \<open>A run of counter operations, as issued by uploads and deletions over time.\<close>

datatype counter_op = Increment | Decrement

fun apply_counter_op :: "counter_op \<Rightarrow> tenant \<Rightarrow> tenant" where
  "apply_counter_op Increment t = incrementDocumentCount t"
| "apply_counter_op Decrement t = decrementDocumentCount t"

definition documents_of :: "tenant \<Rightarrow> int" where
  "documents_of t = currentDocuments (subscription t)"


text \<open>A tenant as the schema defaults create it (free plan, no documents yet).\<close>

definition demo_tenant :: tenant where
  "demo_tenant = \<lparr>name = ''Demo Company'',
     subscription = \<lparr>plan = Free, maxDocuments = 10, currentDocuments = 0,
       maxQueriesPerMonth = 1000, currentQueries = 0, resetDate = 0\<rparr>\<rparr>"


section \<open>Chunker (splitTextIntoChunks)\<close>

text \<open>
  Texts are lists of characters. The characters matched by the regular expression class
  \<^verbatim>\<open>\s\<close> are, within the 8-bit range of \<^typ>\<open>char\<close>: tab, line feed, vertical tab, form
  feed, carriage return, space and the no-break space.
\<close>

definition isSpace :: "char \<Rightarrow> bool" where
  "isSpace c \<longleftrightarrow> (of_char c :: nat) \<in> {9, 10, 11, 12, 13, 32, 160}"

text \<open>
  \<^verbatim>\<open>text.split(/\s+/)\<close>: the pieces of the text between maximal runs of whitespace. A
  text that starts (ends) with whitespace has an empty first (last) piece, and the
  empty text has the single piece \<^verbatim>\<open>""\<close>: the result is never the empty array.
\<close>

function split_ws :: "string \<Rightarrow> string list" where
  "split_ws s =
     (let w = takeWhile (\<lambda>c. \<not> isSpace c) s;
          r = dropWhile (\<lambda>c. \<not> isSpace c) s
      in if r = [] then [w] else w # split_ws (dropWhile isSpace r))"
  by pat_completeness auto
termination
proof (relation "measure length")
  fix s w r
  assume r: "r = dropWhile (\<lambda>c. \<not> isSpace c) s" and ne: "r \<noteq> []"
  from ne r have "isSpace (hd r)"
    using hd_dropWhile [of "\<lambda>c. \<not> isSpace c" s] by simp
  with ne have "length (dropWhile isSpace r) < length r"
    by (cases r) (simp_all add: le_imp_less_Suc length_dropWhile_le)
  moreover have "length r \<le> length s"
    using r by (simp add: length_dropWhile_le)
  ultimately show "(dropWhile isSpace r, s) \<in> measure length" by simp
qed simp

declare split_ws.simps [simp del]

text \<open>\<^verbatim>\<open>currentChunk.join(" ")\<close>\<close>

fun join_space :: "string list \<Rightarrow> string" where
  "join_space [] = []"
| "join_space [w] = w"
| "join_space (w # v # ws) = w @ CHR '' '' # join_space (v # ws)"

text \<open>
  \<^verbatim>\<open>
  for (const word of words) {
    currentChunk.push(word);
    if (currentChunk.length >= maxTokens) {
      chunks.push(currentChunk.join(" "));
      currentChunk = [];
    }
  }
  \<close>
  The loop state is the pair of \<open>chunks\<close> and \<open>currentChunk\<close>.
\<close>

fun chunk_loop :: "nat \<Rightarrow> string list \<Rightarrow> string list \<Rightarrow> string list
    \<Rightarrow> string list \<times> string list" where
  "chunk_loop maxTokens [] chunks currentChunk = (chunks, currentChunk)"
| "chunk_loop maxTokens (word # words) chunks currentChunk =
     (let currentChunk' = currentChunk @ [word]
      in if length currentChunk' \<ge> maxTokens
         then chunk_loop maxTokens words (chunks @ [join_space currentChunk']) []
         else chunk_loop maxTokens words chunks currentChunk')"

text \<open>
  The private helper of the admin controller (also the one in the seed script):
  \<^verbatim>\<open>
  const splitTextIntoChunks = (text, maxTokens) => {
    const words = text.split(/\s+/);
    const chunks = [];
    let currentChunk = [];
    for (const word of words) { ... }
    if (currentChunk.length > 0) {
      chunks.push(currentChunk.join(" "));
    }
    return chunks;
  };
  \<close>
\<close>

definition splitTextIntoChunks :: "string \<Rightarrow> nat \<Rightarrow> string list" where
  "splitTextIntoChunks text maxTokens =
     (case chunk_loop maxTokens (split_ws text) [] [] of
        (chunks, currentChunk) \<Rightarrow>
          if length currentChunk > 0 then chunks @ [join_space currentChunk] else chunks)"

text \<open>
  The exported helper of utils/fileParser.js has one more guard in front of the same
  body: \<^verbatim>\<open>if (!text || typeof text !== "string") return [];\<close>. For a string argument
  the guard fires exactly on the empty string.
\<close>

definition splitTextIntoChunks_fileParser :: "string \<Rightarrow> nat \<Rightarrow> string list" where
  "splitTextIntoChunks_fileParser text maxTokens =
     (if text = [] then [] else splitTextIntoChunks text maxTokens)"

text \<open>
  The word count the code itself records for a chunk in the embedding's metadata,
  \<^verbatim>\<open>tokenCount: chunks[i].split(" ").length\<close>: the pieces between single spaces.
\<close>

fun split_space :: "string \<Rightarrow> string list" where
  "split_space [] = [[]]"
| "split_space (c # cs) =
     (if c = CHR '' '' then [] # split_space cs
      else (case split_space cs of
              w # ws \<Rightarrow> (c # w) # ws
            | [] \<Rightarrow> [[c]]))"

definition count_tokens :: "string \<Rightarrow> nat" where
  "count_tokens chunk = length (split_space chunk)"


section \<open>Embedding client: calls with retry (admin controller)\<close>

text \<open>
  A value thrown in JavaScript: an \<^verbatim>\<open>Error\<close> with its message, or \<^verbatim>\<open>undefined\<close> (what
  \<^verbatim>\<open>throw lastError\<close> throws when no attempt was made).
\<close>

datatype thrown = Undefined | Error (errorMessage: string)

text \<open>
  The embedding provider (\<^verbatim>\<open>generateEmbeddings\<close>, \<^verbatim>\<open>generateBatchEmbeddings\<close>) is an
  external service: a call may succeed on one attempt and fail on the next. It is a
  parameter of the model, a function of the request and of the state of the outside
  world \<open>'s\<close>, returning the outcome and the next state. A call that fails throws an
  \<^verbatim>\<open>Error\<close>, given by its message: the body of each of the two functions is one
  \<^verbatim>\<open>try\<close> block whose \<^verbatim>\<open>catch\<close> throws a \<^verbatim>\<open>new Error\<close>, as does every \<^verbatim>\<open>throw\<close> inside it.
\<close>

type_synonym ('a, 'b, 's) provider = "'a \<Rightarrow> 's \<Rightarrow> (string + 'b) \<times> 's"

text \<open>
  What a call with retry does besides returning: each attempt with its outcome
  (\<open>None\<close> for success), and each \<^verbatim>\<open>setTimeout\<close> pause in milliseconds.
\<close>

datatype event = Attempt nat "thrown option" | Sleep nat

text \<open>
  \<^verbatim>\<open>
  let lastError;
  for (let attempt = 1; attempt <= maxRetries; attempt++) {
    try {
      return await generateEmbeddings(text);
    } catch (error) {
      lastError = error;
      console.error(`Embedding attempt ${attempt}/${maxRetries} failed:`, error.message);
      if (attempt < maxRetries) {
        const delay = Math.min(1000 * Math.pow(2, attempt - 1), 5000);
        await new Promise((resolve) => setTimeout(resolve, delay));
      }
    }
  }
  throw lastError;
  \<close>
  The loop from \<open>attempt\<close> on; \<open>lastError\<close> is \<open>Undefined\<close> until an attempt has failed.
  The error caught is the \<^verbatim>\<open>Error\<close> of the provider, so reading its message for the log
  has no effect.
\<close>

function retry_loop :: "('a, 'b, 's) provider \<Rightarrow> 'a \<Rightarrow> nat \<Rightarrow> nat \<Rightarrow> thrown \<Rightarrow> 's
    \<Rightarrow> event list \<Rightarrow> (thrown + 'b) \<times> 's \<times> event list" where
  "retry_loop generate input maxRetries attempt lastError s trace =
     (if attempt \<le> maxRetries then
        (case generate input s of
           (Inr result, s') \<Rightarrow> (Inr result, s', trace @ [Attempt attempt None])
         | (Inl msg, s') \<Rightarrow>
             retry_loop generate input maxRetries (attempt + 1) (Error msg) s'
               (trace @ [Attempt attempt (Some (Error msg))]
                  @ (if attempt < maxRetries
                     then [Sleep (min (1000 * 2 ^ (attempt - 1)) 5000)] else [])))
      else (Inl lastError, s, trace))"
  by pat_completeness auto
termination
  by (relation "measure (\<lambda>(generate, input, maxRetries, attempt, lastError, s, trace).
        maxRetries + 1 - attempt)") auto

declare retry_loop.simps [simp del]

text \<open>
  \<^verbatim>\<open>generateEmbeddingsWithRetry(text, maxRetries = 3)\<close> and
  \<^verbatim>\<open>generateBatchEmbeddingsWithRetry(texts, maxRetries = 3)\<close> have the same body, one
  around the single-text call and one around the batch call.
\<close>

type_synonym vector = "real list"

definition generateEmbeddingsWithRetry :: "(string, vector, 's) provider \<Rightarrow> string \<Rightarrow> nat \<Rightarrow> 's
    \<Rightarrow> (thrown + vector) \<times> 's \<times> event list" where
  "generateEmbeddingsWithRetry generateEmbeddings input maxRetries s =
     retry_loop generateEmbeddings input maxRetries 1 Undefined s []"

definition generateBatchEmbeddingsWithRetry :: "(string list, vector list, 's) provider
    \<Rightarrow> string list \<Rightarrow> nat \<Rightarrow> 's \<Rightarrow> (thrown + vector list) \<times> 's \<times> event list" where
  "generateBatchEmbeddingsWithRetry generateBatchEmbeddings texts maxRetries s =
     retry_loop generateBatchEmbeddings texts maxRetries 1 Undefined s []"


section \<open>Documents, embeddings and the ingestion job (models, admin controller)\<close>

datatype processing_status = Pending | Processing | Completed | Failed

text \<open>
  The fields of the Document schema the job reads and writes. \<open>chunkCount\<close> and
  \<open>embeddingCount\<close> default to 0, \<open>processingStatus\<close> to \<^verbatim>\<open>"pending"\<close>.
\<close>

record document =
  content :: string
  processingStatus :: processing_status
  processingError :: "string option"
  chunkCount :: nat
  embeddingCount :: nat

text \<open>
  The document as \<^verbatim>\<open>uploadDocuments\<close> creates it:
  \<^verbatim>\<open>new Document({ ..., content, processingStatus: "pending" })\<close>.
\<close>

definition new_document :: "string \<Rightarrow> document" where
  "new_document c = \<lparr>content = c, processingStatus = Pending, processingError = None,
     chunkCount = 0, embeddingCount = 0\<rparr>"

record embedding_metadata =
  chunkIndex :: nat
  tokenCount :: nat
  category :: "string option"

text \<open>The Embedding schema; the field \<^verbatim>\<open>text\<close> is called \<open>chunkText\<close> here.\<close>

record embedding_doc =
  tenantId :: nat
  documentId :: nat
  chunkText :: string
  embedding :: vector
  metadata :: embedding_metadata
  isActive :: bool

text \<open>
  The state a job works on: the in-memory document \<open>doc\<close>, the snapshots written by
  \<^verbatim>\<open>document.save()\<close> in order (the states a status poll can read), the Embedding
  collection in insertion order, and the state of the outside world the provider
  depends on. Writes to the database are taken to succeed.
\<close>

record 's job =
  doc :: document
  saves :: "document list"
  embeddings :: "embedding_doc list"
  world :: 's

definition save :: "'s job \<Rightarrow> 's job" where
  "save j = j\<lparr>saves := saves j @ [doc j]\<rparr>"

text \<open>\<^verbatim>\<open>document.embeddingCount = processedChunks; await document.save();\<close>\<close>

definition update_progress :: "nat \<Rightarrow> 's job \<Rightarrow> 's job" where
  "update_progress processedChunks j =
     save (j\<lparr>doc := (doc j)\<lparr>embeddingCount := processedChunks\<rparr>\<rparr>)"

text \<open>
  The embedding document built for chunk \<open>i\<close> of a batch that starts at \<open>batchIndex\<close>:
  \<^verbatim>\<open>
  { tenantId, documentId, text: batchChunks[i], embedding: embedding,
    metadata: { chunkIndex: batchIndex + i,
                tokenCount: batchChunks[i].split(" ").length } }
  \<close>
\<close>

definition embedding_for :: "nat \<Rightarrow> nat \<Rightarrow> string list \<Rightarrow> nat \<Rightarrow> nat \<Rightarrow> vector
    \<Rightarrow> embedding_doc" where
  "embedding_for tid did batchChunks batchIndex i v =
     \<lparr>tenantId = tid, documentId = did, chunkText = batchChunks ! i, embedding = v,
      metadata = \<lparr>chunkIndex = batchIndex + i,
                  tokenCount = count_tokens (batchChunks ! i), category = None\<rparr>,
      isActive = True\<rparr>"

text \<open>
  The per-chunk fallback after a failed batch:
  \<^verbatim>\<open>
  for (let i = 0; i < batchChunks.length; i++) {
    try {
      const embedding = await generateEmbeddingsWithRetry(batchChunks[i], 3);
      const embeddingDoc = new Embedding({ ... });
      await embeddingDoc.save();
      processedChunks++;
      document.embeddingCount = processedChunks;
      await document.save();
    } catch (chunkError) { console.error(...); }
  }
  \<close>
\<close>

function fallback_loop :: "(string, vector, 's) provider \<Rightarrow> nat \<Rightarrow> nat \<Rightarrow> string list \<Rightarrow> nat
    \<Rightarrow> nat \<Rightarrow> nat \<times> 's job \<Rightarrow> nat \<times> 's job" where
  "fallback_loop generateEmbeddings tid did batchChunks batchIndex i (processedChunks, j) =
     (if i < length batchChunks then
        (case generateEmbeddingsWithRetry generateEmbeddings (batchChunks ! i) 3 (world j) of
           (Inr v, s', trace) \<Rightarrow>
             fallback_loop generateEmbeddings tid did batchChunks batchIndex (i + 1)
               (processedChunks + 1,
                update_progress (processedChunks + 1)
                  (j\<lparr>world := s',
                     embeddings := embeddings j
                        @ [embedding_for tid did batchChunks batchIndex i v]\<rparr>))
         | (Inl chunkError, s', trace) \<Rightarrow>
             fallback_loop generateEmbeddings tid did batchChunks batchIndex (i + 1)
               (processedChunks, j\<lparr>world := s'\<rparr>))
      else (processedChunks, j))"
  by pat_completeness auto
termination
  by (relation "measure (\<lambda>(g, tid, did, batchChunks, batchIndex, i, pj).
        length batchChunks - i)") auto

declare fallback_loop.simps [simp del]

text \<open>
  One batch:
  \<^verbatim>\<open>
  try {
    const embeddings = await generateBatchEmbeddingsWithRetry(batchChunks, 3);
    const embeddingDocs = embeddings.map((embedding, idx) => ({ ...,
      text: batchChunks[idx], embedding: embedding,
      metadata: { chunkIndex: batchIndex + idx,
                  tokenCount: batchChunks[idx].split(" ").length } }));
    await Embedding.insertMany(embeddingDocs);
    processedChunks += embeddings.length;
    document.embeddingCount = processedChunks;
    await document.save();
  } catch (error) { ... the per-chunk fallback ... }
  \<close>
  If the provider returns more vectors than the batch has chunks, \<^verbatim>\<open>batchChunks[idx]\<close>
  is \<^verbatim>\<open>undefined\<close> for the surplus and \<^verbatim>\<open>.split\<close> raises a TypeError inside the
  \<^verbatim>\<open>try\<close>, before anything is inserted: the batch then takes the fallback as well.
\<close>

definition process_batch :: "(string list, vector list, 's) provider
    \<Rightarrow> (string, vector, 's) provider \<Rightarrow> nat \<Rightarrow> nat \<Rightarrow> string list \<Rightarrow> nat
    \<Rightarrow> nat \<times> 's job \<Rightarrow> nat \<times> 's job" where
  "process_batch generateBatchEmbeddings generateEmbeddings tid did batchChunks batchIndex pj =
     (case pj of (processedChunks, j) \<Rightarrow>
        (case generateBatchEmbeddingsWithRetry generateBatchEmbeddings batchChunks 3 (world j) of
           (Inr vs, s', trace) \<Rightarrow>
             if length vs \<le> length batchChunks then
               (processedChunks + length vs,
                update_progress (processedChunks + length vs)
                  (j\<lparr>world := s',
                     embeddings := embeddings j
                        @ map (\<lambda>idx. embedding_for tid did batchChunks batchIndex idx (vs ! idx))
                            [0..<length vs]\<rparr>))
             else fallback_loop generateEmbeddings tid did batchChunks batchIndex 0
                    (processedChunks, j\<lparr>world := s'\<rparr>)
         | (Inl err, s', trace) \<Rightarrow>
             fallback_loop generateEmbeddings tid did batchChunks batchIndex 0
               (processedChunks, j\<lparr>world := s'\<rparr>)))"

text \<open>
  \<^verbatim>\<open>
  const BATCH_SIZE = 50;
  for (let batchIndex = 0; batchIndex < chunks.length; batchIndex += BATCH_SIZE) {
    const batchChunks = chunks.slice(batchIndex, batchIndex + BATCH_SIZE);
    ... one batch ...
    if (batchIndex + BATCH_SIZE < chunks.length) { await pause of 100 ms }
  }
  \<close>
  The pause between batches changes no state and is left out.
\<close>

definition BATCH_SIZE :: nat where
  "BATCH_SIZE = 50"

function batch_loop :: "(string list, vector list, 's) provider
    \<Rightarrow> (string, vector, 's) provider \<Rightarrow> nat \<Rightarrow> nat \<Rightarrow> string list \<Rightarrow> nat
    \<Rightarrow> nat \<times> 's job \<Rightarrow> nat \<times> 's job" where
  "batch_loop generateBatchEmbeddings generateEmbeddings tid did chunks batchIndex pj =
     (if batchIndex < length chunks then
        batch_loop generateBatchEmbeddings generateEmbeddings tid did chunks
          (batchIndex + BATCH_SIZE)
          (process_batch generateBatchEmbeddings generateEmbeddings tid did
             (take BATCH_SIZE (drop batchIndex chunks)) batchIndex pj)
      else pj)"
  by pat_completeness auto
termination
  by (relation "measure (\<lambda>(gb, g, tid, did, chunks, batchIndex, pj).
        length chunks - batchIndex)") (auto simp: BATCH_SIZE_def)

declare batch_loop.simps [simp del]

text \<open>
  The body of the outer \<^verbatim>\<open>try\<close> of \<^verbatim>\<open>processDocumentAsync\<close>, after the document has been
  found. It returns the message of the \<^verbatim>\<open>Error\<close> it throws, if any.
  \<^verbatim>\<open>
  document.processingStatus = "processing";
  await document.save();
  const chunks = splitTextIntoChunks(document.content, 800);
  if (chunks.length === 0) {
    throw new Error("No content chunks generated from document");
  }
  document.chunkCount = chunks.length;
  await document.save();
  let processedChunks = 0;
  ... the batches ...
  if (processedChunks === 0) {
    throw new Error("Failed to create any embeddings");
  }
  document.processingStatus = "completed";
  await document.save();
  \<close>
\<close>

definition process_body :: "(string list, vector list, 's) provider
    \<Rightarrow> (string, vector, 's) provider \<Rightarrow> nat \<Rightarrow> nat \<Rightarrow> 's job \<Rightarrow> string option \<times> 's job" where
  "process_body generateBatchEmbeddings generateEmbeddings did tid j =
     (let j1 = save (j\<lparr>doc := (doc j)\<lparr>processingStatus := Processing\<rparr>\<rparr>);
          chunks = splitTextIntoChunks (content (doc j1)) 800
      in if length chunks = 0
         then (Some ''No content chunks generated from document'', j1)
         else
           (let j2 = save (j1\<lparr>doc := (doc j1)\<lparr>chunkCount := length chunks\<rparr>\<rparr>)
            in case batch_loop generateBatchEmbeddings generateEmbeddings tid did chunks 0 (0, j2)
               of (processedChunks, j3) \<Rightarrow>
                 if processedChunks = 0
                 then (Some ''Failed to create any embeddings'', j3)
                 else (None, save (j3\<lparr>doc := (doc j3)\<lparr>processingStatus := Completed\<rparr>\<rparr>))))"

text \<open>
  \<^verbatim>\<open>
  const processDocumentAsync = async (documentId, tenantId) => {
    let document = null;
    try {
      document = await Document.findById(documentId);
      if (!document) { console.error(...); return; }
      ... the body ...
    } catch (error) {
      if (document) {
        document.processingStatus = "failed";
        document.processingError = error.message;
        await document.save();
      }
      throw error;
    }
  };
  \<close>
  \<open>found\<close> is the result of the lookup; \<open>store\<close> and \<open>s\<close> are the Embedding collection
  and the outside world when the job starts. The result is \<open>None\<close> when the document
  was not found (the job returns at once), and otherwise the error the job rethrows, if
  any, with the final state.
\<close>

definition processDocumentAsync :: "(string list, vector list, 's) provider
    \<Rightarrow> (string, vector, 's) provider \<Rightarrow> nat \<Rightarrow> nat \<Rightarrow> document option
    \<Rightarrow> embedding_doc list \<Rightarrow> 's \<Rightarrow> (thrown option \<times> 's job) option" where
  "processDocumentAsync generateBatchEmbeddings generateEmbeddings did tid found store s =
     (case found of
        None \<Rightarrow> None
      | Some d \<Rightarrow>
          (case process_body generateBatchEmbeddings generateEmbeddings did tid
                  \<lparr>doc = d, saves = [], embeddings = store, world = s\<rparr> of
             (None, j) \<Rightarrow> Some (None, j)
           | (Some msg, j) \<Rightarrow>
               Some (Some (Error msg),
                     save (j\<lparr>doc := (doc j)\<lparr>processingStatus := Failed,
                                            processingError := Some msg\<rparr>\<rparr>))))"

text \<open>
  The older copy of the controller has a simpler job: one \<^verbatim>\<open>generateEmbeddings\<close> call
  per chunk, no retry, no batches, no check of the chunk or embedding count, and
  \<^verbatim>\<open>"completed"\<close> at the end in every case.
\<close>

fun legacy_chunk_loop :: "(string, vector, 's) provider \<Rightarrow> nat \<Rightarrow> nat \<Rightarrow> string list \<Rightarrow> nat
    \<Rightarrow> nat \<Rightarrow> nat \<times> 's job \<Rightarrow> nat \<times> 's job" where
  "legacy_chunk_loop generateEmbeddings tid did chunks i 0 pj = pj"
| "legacy_chunk_loop generateEmbeddings tid did chunks i (Suc remaining) (processedChunks, j) =
     (case generateEmbeddings (chunks ! i) (world j) of
        (Inr v, s') \<Rightarrow>
          legacy_chunk_loop generateEmbeddings tid did chunks (i + 1) remaining
            (processedChunks + 1,
             update_progress (processedChunks + 1)
               (j\<lparr>world := s',
                  embeddings := embeddings j @ [embedding_for tid did chunks 0 i v]\<rparr>))
      | (Inl err, s') \<Rightarrow>
          legacy_chunk_loop generateEmbeddings tid did chunks (i + 1) remaining
            (processedChunks, j\<lparr>world := s'\<rparr>))"

definition processDocumentAsync_legacy :: "(string, vector, 's) provider \<Rightarrow> nat \<Rightarrow> nat
    \<Rightarrow> document option \<Rightarrow> embedding_doc list \<Rightarrow> 's \<Rightarrow> 's job option" where
  "processDocumentAsync_legacy generateEmbeddings did tid found store s =
     (case found of
        None \<Rightarrow> None
      | Some d \<Rightarrow>
          (let j1 = save \<lparr>doc = d\<lparr>processingStatus := Processing\<rparr>, saves = [],
                          embeddings = store, world = s\<rparr>;
               chunks = splitTextIntoChunks (content d) 800;
               j2 = save (j1\<lparr>doc := (doc j1)\<lparr>chunkCount := length chunks\<rparr>\<rparr>)
           in case legacy_chunk_loop generateEmbeddings tid did chunks 0 (length chunks) (0, j2)
              of (processedChunks, j3) \<Rightarrow>
                Some (save (j3\<lparr>doc := (doc j3)\<lparr>processingStatus := Completed\<rparr>\<rparr>))))"

text \<open>
  The status endpoint, for a document that was found:
  \<^verbatim>\<open>
  documentSchema.methods.getProcessingProgress = function () {
    if (this.chunkCount === 0) return 0;
    return Math.round((this.embeddingCount / this.chunkCount) * 100);
  };
  res.json({ uploadId, status: document.processingStatus, progress, message,
             chunkCount: document.chunkCount, embeddingCount: document.embeddingCount,
             error: document.processingError || null });
  \<close>
  The status, the two counts and the error of the response are read off the document.
  The percentage \<^verbatim>\<open>progress\<close> is a rounded binary64 quotient of the two counts, which are
  in the response themselves; it is left out of the status here, as are the upload id
  and the display message.
\<close>

record upload_status =
  status :: processing_status
  statusChunkCount :: nat
  statusEmbeddingCount :: nat
  statusError :: "string option"

definition getUploadStatus :: "document \<Rightarrow> upload_status" where
  "getUploadStatus d =
     \<lparr>status = processingStatus d,
      statusChunkCount = chunkCount d, statusEmbeddingCount = embeddingCount d,
      statusError = (case processingError d of
                 Some msg \<Rightarrow> if msg = [] then None else Some msg
               | None \<Rightarrow> None)\<rparr>"

text \<open>
  What successive polls of one document can read while its job runs: the document as
  uploaded, then each saved snapshot.
\<close>

definition poll_history :: "document \<Rightarrow> 's job \<Rightarrow> upload_status list" where
  "poll_history d j = map getUploadStatus (d # saves j)"

text \<open>Two providers for concrete runs: one that is down, one that answers every text.\<close>

definition provider_down :: "('a, 'b, unit) provider" where
  "provider_down input s = (Inl ''Service unavailable'', s)"

definition provider_up :: "(string, vector, unit) provider" where
  "provider_up input s = (Inr [1, 0], s)"

definition batch_provider_up :: "(string list, vector list, unit) provider" where
  "batch_provider_up texts s = (Inr (map (\<lambda>t. [1, 0]) texts), s)"


text \<open>
  The retry policy in the words of the specification, stated against the provider.
  Calling the provider again and again on the same input, from the state \<open>s\<close>, gives a
  run: \<open>provider_state generate input s k\<close> is the state after \<open>k\<close> calls,
  \<open>outcome_at generate input s k\<close> what call number \<open>k\<close> returns or throws (calls are
  numbered from 1), and \<open>error_at generate input s k\<close> the error of call \<open>k\<close> when it
  fails.
\<close>

fun provider_state :: "('a, 'b, 's) provider \<Rightarrow> 'a \<Rightarrow> 's \<Rightarrow> nat \<Rightarrow> 's" where
  "provider_state generate input s 0 = s"
| "provider_state generate input s (Suc k) =
     snd (generate input (provider_state generate input s k))"

definition outcome_at :: "('a, 'b, 's) provider \<Rightarrow> 'a \<Rightarrow> 's \<Rightarrow> nat \<Rightarrow> thrown + 'b" where
  "outcome_at generate input s k =
     map_sum Error id (fst (generate input (provider_state generate input s (k - 1))))"

definition error_at :: "('a, 'b, 's) provider \<Rightarrow> 'a \<Rightarrow> 's \<Rightarrow> nat \<Rightarrow> thrown option" where
  "error_at generate input s k =
     (case outcome_at generate input s k of Inl e \<Rightarrow> Some e | Inr v \<Rightarrow> None)"

text \<open>
  The pause after a failed attempt \<open>k\<close> is \<open>min (1000 \<times> 2^(k-1)) 5000\<close> milliseconds. A call
  that makes \<open>n\<close> attempts leaves this trace: each of the attempts \<open>1\<close> to \<open>n - 1\<close> with the
  error of the provider's call of that number, followed by its pause; then attempt \<open>n\<close>
  with what the provider's call \<open>n\<close> did.
\<close>

definition backoff_delay :: "nat \<Rightarrow> nat" where
  "backoff_delay k = min (1000 * 2 ^ (k - 1)) 5000"

definition policy_trace :: "('a, 'b, 's) provider \<Rightarrow> 'a \<Rightarrow> 's \<Rightarrow> nat \<Rightarrow> event list" where
  "policy_trace generate input s n =
     concat (map (\<lambda>k. [Attempt k (error_at generate input s k), Sleep (backoff_delay k)])
               [1..<n])
       @ [Attempt n (error_at generate input s n)]"

text \<open>
  An outcome (result, final state, trace) follows the policy for \<open>maxRetries\<close> on a
  provider when, for some number \<open>n\<close> of attempts between 1 and \<open>maxRetries\<close>: the
  provider's calls \<open>1\<close> to \<open>n - 1\<close> all failed; the call stopped before \<open>maxRetries\<close> only
  because call \<open>n\<close> succeeded; the result is what the provider's call \<open>n\<close> returned or
  threw; the final state is the state after exactly \<open>n\<close> calls of the provider; and the
  trace is the one above. So a success is the value of the first successful call, and a
  thrown error is the error of call number \<open>maxRetries\<close>, every call before it having
  failed.
\<close>

definition follows_retry_policy :: "nat \<Rightarrow> ('a, 'b, 's) provider \<Rightarrow> 'a \<Rightarrow> 's
    \<Rightarrow> (thrown + 'b) \<times> 's \<times> event list \<Rightarrow> bool" where
  "follows_retry_policy maxRetries generate input s outcome \<longleftrightarrow>
     (\<exists>n. 1 \<le> n \<and> n \<le> maxRetries
        \<and> (\<forall>k. 1 \<le> k \<and> k < n \<longrightarrow> isl (outcome_at generate input s k))
        \<and> (n < maxRetries \<longrightarrow> \<not> isl (outcome_at generate input s n))
        \<and> outcome = (outcome_at generate input s n, provider_state generate input s n,
                     policy_trace generate input s n))"

text \<open>
  Two providers that count their calls in the state, for concrete runs: one fails every
  call, with an error that tells the calls apart; the other fails its first two calls
  and then answers.
\<close>

definition failure_text :: "nat \<Rightarrow> string" where
  "failure_text calls =
     (if calls = 0 then ''first failure''
      else if calls = 1 then ''second failure''
      else if calls = 2 then ''third failure''
      else ''later failure'')"

definition provider_failing :: "('a, 'b, nat) provider" where
  "provider_failing input calls = (Inl (failure_text calls), calls + 1)"

definition provider_recovering :: "(string list, vector list, nat) provider" where
  "provider_recovering texts calls =
     (if calls < 2 then Inl (failure_text calls) else Inr (map (\<lambda>t. [1, 0]) texts),
      calls + 1)"


text \<open>
  Two invariants of the batch loop, for a job that started with \<open>n0\<close> stored embeddings
  and has counted \<open>p\<close> processed chunks so far. The first ties the counter to the
  collection and to the document; the second says that the saved snapshots carry
  non-decreasing embedding counts, none above the in-memory document's.
\<close>

definition counted :: "nat \<Rightarrow> nat \<Rightarrow> 's job \<Rightarrow> bool" where
  "counted n0 p j \<longleftrightarrow>
     length (embeddings j) = n0 + p
     \<and> (0 < p \<longrightarrow> embeddingCount (doc j) = p)
     \<and> processingStatus (doc j) = Processing
     \<and> saves j \<noteq> [] \<and> last (saves j) = doc j"

definition monotone_saves :: "nat \<Rightarrow> 's job \<Rightarrow> bool" where
  "monotone_saves p j \<longleftrightarrow>
     sorted (map embeddingCount (saves j))
     \<and> (\<forall>x\<in>set (saves j). embeddingCount x \<le> embeddingCount (doc j))
     \<and> embeddingCount (doc j) \<le> p"

text \<open>A provider every call of which fails, whatever the state of the world.\<close>

definition always_fails :: "('a, 'b, 's) provider \<Rightarrow> bool" where
  "always_fails generate \<longleftrightarrow> (\<forall>input s. isl (fst (generate input s)))"


section \<open>Similarity and search (embedding and similarity services)\<close>

text \<open>
  The search is stated over real numbers: a score is the real number that the similarity
  computation gives in exact arithmetic. What the statements about the search say of a
  result (which candidates it holds, in which order, and what becomes of a vector of the
  wrong length) does not depend on that arithmetic. The value that the program's binary64
  arithmetic gives to a similarity is the subject of the next section, which embeds the
  computation with that arithmetic.
  \<^verbatim>\<open>
  export const getEmbeddingDimension = () => { return 1536; };
  export const validateEmbedding = (embedding) => {
    if (!Array.isArray(embedding)) { return false; }
    if (embedding.length !== getEmbeddingDimension()) { return false; }
    return embedding.every((value) => typeof value === "number" && !isNaN(value));
  };
  \<close>
  A \<^typ>\<open>vector\<close> is an array of numbers none of which is \<^verbatim>\<open>NaN\<close>, so only the length
  test can fail.
\<close>

definition getEmbeddingDimension :: nat where
  "getEmbeddingDimension = 1536"

definition validateEmbedding :: "vector \<Rightarrow> bool" where
  "validateEmbedding e \<longleftrightarrow> length e = getEmbeddingDimension"

text \<open>
  \<^verbatim>\<open>
  let dotProduct = 0; let norm1 = 0; let norm2 = 0;
  for (let i = 0; i < embedding1.length; i++) {
    dotProduct += embedding1[i] * embedding2[i];
    norm1 += embedding1[i] * embedding1[i];
    norm2 += embedding2[i] * embedding2[i];
  }
  \<close>
  The loop runs only after both vectors passed the length test, so every index is in
  range of both.
\<close>

definition cosine_loop :: "vector \<Rightarrow> vector \<Rightarrow> real \<times> real \<times> real" where
  "cosine_loop embedding1 embedding2 =
     fold (\<lambda>i (dotProduct, norm1, norm2).
             (dotProduct + embedding1 ! i * embedding2 ! i,
              norm1 + embedding1 ! i * embedding1 ! i,
              norm2 + embedding2 ! i * embedding2 ! i))
       [0..<length embedding1] (0, 0, 0)"

text \<open>
  \<^verbatim>\<open>
  export const cosineSimilarity = (embedding1, embedding2) => {
    if (!validateEmbedding(embedding1) || !validateEmbedding(embedding2)) {
      throw new Error("Invalid embeddings provided");
    }
    ... the loop ...
    norm1 = Math.sqrt(norm1);
    norm2 = Math.sqrt(norm2);
    if (norm1 === 0 || norm2 === 0) { return 0; }
    return dotProduct / (norm1 * norm2);
  };
  \<close>
  The mock embedding service has the same function, word for word.
\<close>

definition cosineSimilarity :: "vector \<Rightarrow> vector \<Rightarrow> thrown + real" where
  "cosineSimilarity embedding1 embedding2 =
     (if \<not> validateEmbedding embedding1 \<or> \<not> validateEmbedding embedding2
      then Inl (Error ''Invalid embeddings provided'')
      else (case cosine_loop embedding1 embedding2 of
              (dotProduct, sum1, sum2) \<Rightarrow>
                (let norm1 = sqrt sum1; norm2 = sqrt sum2
                 in if norm1 = 0 \<or> norm2 = 0 then Inr 0
                    else Inr (dotProduct / (norm1 * norm2)))))"

text \<open>
  The quantities of the specification's formula \<open>dot(a,b) / (\<parallel>a\<parallel> \<sdot> \<parallel>b\<parallel>)\<close>: the dot product of
  two vectors and the Euclidean norm of a vector.
\<close>

definition dot_product :: "vector \<Rightarrow> vector \<Rightarrow> real" where
  "dot_product a b = sum_list (map2 (*) a b)"

definition euclidean_norm :: "vector \<Rightarrow> real" where
  "euclidean_norm a = sqrt (sum_list (map (\<lambda>x. x * x) a))"

text \<open>
  The options of a search, with the defaults of the destructuring
  \<^verbatim>\<open>{ limit = 5, minSimilarity = 0.7, category = null, excludeDocumentIds = [] }\<close>.
  \<open>limit\<close> is a count of results.
\<close>

record search_options =
  limit :: nat
  minSimilarity :: real
  categoryFilter :: "string option"
  excludeDocumentIds :: "nat list"

definition default_options :: search_options where
  "default_options = \<lparr>limit = 5, minSimilarity = 7 / 10, categoryFilter = None,
     excludeDocumentIds = []\<rparr>"

text \<open>
  The database query: the active embeddings of the tenant, in insertion order, narrowed
  by category when one is given (a non-empty string) and by the excluded documents when
  there are any.
  \<^verbatim>\<open>
  const filter = { tenantId, isActive: true };
  if (category) { filter["metadata.category"] = category; }
  if (excludeDocumentIds.length > 0) { filter.documentId = { $nin: excludeDocumentIds }; }
  const embeddings = await Embedding.find(filter)...
  \<close>
\<close>

definition find_embeddings :: "embedding_doc list \<Rightarrow> nat \<Rightarrow> search_options \<Rightarrow> embedding_doc list" where
  "find_embeddings store tid options =
     filter (\<lambda>e. tenantId e = tid \<and> isActive e
               \<and> (case categoryFilter options of
                     None \<Rightarrow> True
                   | Some c \<Rightarrow> c = [] \<or> category (metadata e) = Some c)
               \<and> (excludeDocumentIds options = []
                    \<or> documentId e \<notin> set (excludeDocumentIds options)))
       store"

text \<open>An entry of the result: the stored embedding and its similarity to the query.\<close>

record retrieval_match =
  matched :: embedding_doc
  similarity :: real

text \<open>
  \<^verbatim>\<open>
  const similarities = embeddings.map((embedding) => {
    try {
      const similarity = cosineSimilarity(queryEmbedding, embedding.embedding);
      return { embedding, similarity };
    } catch (error) {
      console.error("Error calculating similarity:", error);
      return { embedding, similarity: 0 };
    }
  });
  \<close>
\<close>

definition score_embedding :: "vector \<Rightarrow> embedding_doc \<Rightarrow> retrieval_match" where
  "score_embedding queryEmbedding e =
     (case cosineSimilarity queryEmbedding (embedding e) of
        Inr sim \<Rightarrow> \<lparr>matched = e, similarity = sim\<rparr>
      | Inl err \<Rightarrow> \<lparr>matched = e, similarity = 0\<rparr>)"

text \<open>
  \<^verbatim>\<open>Array.prototype.sort\<close> with a comparison function is a stable sort: elements that
  compare equal keep their order, and \<open>a\<close> comes before \<open>b\<close> when the comparison of
  \<open>a\<close> with \<open>b\<close> is negative. Insertion from the right does that.
\<close>

fun insert_by :: "('a \<Rightarrow> 'a \<Rightarrow> real) \<Rightarrow> 'a \<Rightarrow> 'a list \<Rightarrow> 'a list" where
  "insert_by cmp x [] = [x]"
| "insert_by cmp x (y # ys) =
     (if cmp x y \<le> 0 then x # y # ys else y # insert_by cmp x ys)"

definition js_sort :: "('a \<Rightarrow> 'a \<Rightarrow> real) \<Rightarrow> 'a list \<Rightarrow> 'a list" where
  "js_sort cmp xs = foldr (insert_by cmp) xs []"

text \<open>
  \<^verbatim>\<open>
  export const findSimilarDocuments = async (tenantId, queryEmbedding, options = {}) => {
    try {
      ... the query ...
      if (embeddings.length === 0) { return []; }
      ... similarities ...
      const filteredResults = similarities.filter(
        (item) => item.similarity >= minSimilarity);
      const sortedResults = filteredResults
        .sort((a, b) => b.similarity - a.similarity)
        .slice(0, limit);
      return sortedResults;
    } catch (error) {
      throw new Error(`Failed to find similar documents: ${error.message}`);
    }
  };
  \<close>
  The errors of \<^verbatim>\<open>cosineSimilarity\<close> are caught inside the \<^verbatim>\<open>map\<close>; with a database that
  answers, nothing reaches the outer \<^verbatim>\<open>catch\<close>.
\<close>

definition filteredResults :: "embedding_doc list \<Rightarrow> nat \<Rightarrow> vector \<Rightarrow> search_options
    \<Rightarrow> retrieval_match list" where
  "filteredResults store tid queryEmbedding options =
     filter (\<lambda>item. similarity item \<ge> minSimilarity options)
       (map (score_embedding queryEmbedding) (find_embeddings store tid options))"

definition findSimilarDocuments :: "embedding_doc list \<Rightarrow> nat \<Rightarrow> vector \<Rightarrow> search_options
    \<Rightarrow> thrown + retrieval_match list" where
  "findSimilarDocuments store tid queryEmbedding options =
     (if length (find_embeddings store tid options) = 0 then Inr []
      else Inr (take (limit options)
                 (js_sort (\<lambda>a b. similarity b - similarity a)
                    (filteredResults store tid queryEmbedding options))))"

text \<open>
  Stored embeddings for concrete searches, all of tenant 1: vectors of the expected
  dimension along the first axis (one value in the first component, 0 in the others),
  and one vector that is too short. With the values \<open>- 2\<close>, \<open>0\<close>, \<open>1\<close> and \<open>2\<close> every
  product, sum, square root and quotient of the similarity computation is a small whole
  number, which binary64 arithmetic computes exactly.
\<close>

definition stored :: "nat \<Rightarrow> vector \<Rightarrow> embedding_doc" where
  "stored i v = \<lparr>tenantId = 1, documentId = 7, chunkText = ''chunk'', embedding = v,
     metadata = \<lparr>chunkIndex = i, tokenCount = 1, category = None\<rparr>,
     isActive = True\<rparr>"

definition axis_vector :: "real \<Rightarrow> vector" where
  "axis_vector c = c # replicate 1535 0"

definition demo_store :: "embedding_doc list" where
  "demo_store = [stored 0 (axis_vector (- 2)), stored 1 (axis_vector 0),
     stored 2 (axis_vector 2), stored 3 [1, 0], stored 4 (axis_vector 1)]"


section \<open>The similarity computation in binary64 arithmetic (embedding service)\<close>

text \<open>
  The numbers of the program are IEEE 754 binary64 values, and the value that
  \<^verbatim>\<open>cosineSimilarity\<close> returns is a matter of that arithmetic. This section embeds the
  function with it. A number is a finite value, given by the real number it denotes, an
  infinity or \<^verbatim>\<open>NaN\<close>. The two zeros are one value: \<^verbatim>\<open>-0 === 0\<close> holds, and the function
  never divides by a negative zero, its divisor being a product of two square roots.
\<close>

datatype js_number = Num real | PosInfinity | NegInfinity | NaN

text \<open>
  Rounding to the nearest binary64 value, ties to the even significand. A real number
  \<open>x\<close> with \<open>2^e \<le> \<bar>x\<bar> < 2^(e+1)\<close> lies between multiples of \<open>2^(e-52)\<close>, the spacing of the
  binary64 values there (53-bit significands); below \<open>2^-1022\<close> the spacing stays
  \<open>2^-1074\<close> (subnormal values). The result is the nearest multiple, the even one when
  two are equally near, and an infinity when that multiple is beyond the largest finite
  value, that is when its magnitude reaches \<open>2^1024\<close>.
\<close>

definition round_half_even :: "real \<Rightarrow> int" where
  "round_half_even v =
     (let f = \<lfloor>v\<rfloor>; d = v - of_int f
      in if d < 1 / 2 then f
         else if d > 1 / 2 then f + 1
         else if even f then f else f + 1)"

definition quantum :: "real \<Rightarrow> real" where
  "quantum x = 2 powr of_int (max \<lfloor>log 2 \<bar>x\<bar>\<rfloor> (- 1022) - 52)"

definition round64 :: "real \<Rightarrow> js_number" where
  "round64 x =
     (if x = 0 then Num 0
      else
        (let y = of_int (round_half_even (x / quantum x)) * quantum x
         in if y \<ge> 2 ^ 1024 then PosInfinity
            else if y \<le> - (2 ^ 1024) then NegInfinity
            else Num y))"

text \<open>
  The operators \<^verbatim>\<open>+\<close>, \<^verbatim>\<open>*\<close>, \<^verbatim>\<open>/\<close> and \<^verbatim>\<open>Math.sqrt\<close>: on finite operands the exact result,
  rounded; on the others the results that IEEE 754 fixes. A division by zero gives an
  infinity of the sign of the dividend, and \<^verbatim>\<open>NaN\<close> for \<^verbatim>\<open>0 / 0\<close>.
\<close>

fun js_add :: "js_number \<Rightarrow> js_number \<Rightarrow> js_number" where
  "js_add NaN b = NaN"
| "js_add a NaN = NaN"
| "js_add PosInfinity NegInfinity = NaN"
| "js_add NegInfinity PosInfinity = NaN"
| "js_add PosInfinity b = PosInfinity"
| "js_add a PosInfinity = PosInfinity"
| "js_add NegInfinity b = NegInfinity"
| "js_add a NegInfinity = NegInfinity"
| "js_add (Num x) (Num y) = round64 (x + y)"

fun js_sign :: "js_number \<Rightarrow> int" where
  "js_sign (Num x) = (if x < 0 then - 1 else if x = 0 then 0 else 1)"
| "js_sign PosInfinity = 1"
| "js_sign NegInfinity = - 1"
| "js_sign NaN = 0"

fun js_mul :: "js_number \<Rightarrow> js_number \<Rightarrow> js_number" where
  "js_mul NaN b = NaN"
| "js_mul a NaN = NaN"
| "js_mul (Num x) (Num y) = round64 (x * y)"
| "js_mul a b =
     (if js_sign a * js_sign b = 0 then NaN
      else if js_sign a * js_sign b > 0 then PosInfinity else NegInfinity)"

fun js_div :: "js_number \<Rightarrow> js_number \<Rightarrow> js_number" where
  "js_div NaN b = NaN"
| "js_div a NaN = NaN"
| "js_div (Num x) (Num y) =
     (if y = 0
      then (if x = 0 then NaN else if x > 0 then PosInfinity else NegInfinity)
      else round64 (x / y))"
| "js_div (Num x) b = Num 0"
| "js_div a (Num y) =
     (if (js_sign a > 0) = (y \<ge> 0) then PosInfinity else NegInfinity)"
| "js_div a b = NaN"

fun js_sqrt :: "js_number \<Rightarrow> js_number" where
  "js_sqrt (Num x) = (if x < 0 then NaN else round64 (sqrt x))"
| "js_sqrt PosInfinity = PosInfinity"
| "js_sqrt NegInfinity = NaN"
| "js_sqrt NaN = NaN"

text \<open>
  The source of \<^verbatim>\<open>validateEmbedding\<close> and \<^verbatim>\<open>cosineSimilarity\<close> is quoted in the section
  before; here every element is a number, so \<^verbatim>\<open>typeof value === "number"\<close> holds and
  \<^verbatim>\<open>!isNaN(value)\<close> is the test that can fail besides the length. \<^verbatim>\<open>norm1 === 0\<close> is
  equality with zero, false for \<^verbatim>\<open>NaN\<close>.
\<close>

definition validateEmbedding_binary64 :: "js_number list \<Rightarrow> bool" where
  "validateEmbedding_binary64 e \<longleftrightarrow>
     length e = getEmbeddingDimension \<and> (\<forall>v \<in> set e. v \<noteq> NaN)"

definition cosine_loop_binary64 :: "js_number list \<Rightarrow> js_number list
    \<Rightarrow> js_number \<times> js_number \<times> js_number" where
  "cosine_loop_binary64 embedding1 embedding2 =
     fold (\<lambda>i (dotProduct, norm1, norm2).
             (js_add dotProduct (js_mul (embedding1 ! i) (embedding2 ! i)),
              js_add norm1 (js_mul (embedding1 ! i) (embedding1 ! i)),
              js_add norm2 (js_mul (embedding2 ! i) (embedding2 ! i))))
       [0..<length embedding1] (Num 0, Num 0, Num 0)"

definition cosineSimilarity_binary64 :: "js_number list \<Rightarrow> js_number list
    \<Rightarrow> thrown + js_number" where
  "cosineSimilarity_binary64 embedding1 embedding2 =
     (if \<not> validateEmbedding_binary64 embedding1 \<or> \<not> validateEmbedding_binary64 embedding2
      then Inl (Error ''Invalid embeddings provided'')
      else (case cosine_loop_binary64 embedding1 embedding2 of
              (dotProduct, sum1, sum2) \<Rightarrow>
                (let norm1 = js_sqrt sum1; norm2 = js_sqrt sum2
                 in if norm1 = Num 0 \<or> norm2 = Num 0 then Inr (Num 0)
                    else Inr (js_div dotProduct (js_mul norm1 norm2)))))"

text \<open>
  The formula of the specification, evaluated in binary64: the sum of a list from the
  left, starting at 0; the dot product as the sum of the products; the norm as the
  square root of the sum of the squares.
\<close>

definition js_sum :: "js_number list \<Rightarrow> js_number" where
  "js_sum xs = foldl js_add (Num 0) xs"

definition dot_binary64 :: "js_number list \<Rightarrow> js_number list \<Rightarrow> js_number" where
  "dot_binary64 a b = js_sum (map2 js_mul a b)"

definition norm_binary64 :: "js_number list \<Rightarrow> js_number" where
  "norm_binary64 a = js_sqrt (js_sum (map (\<lambda>x. js_mul x x) a))"




section \<open>Grounding engine (default answers, PDF chat service, chat controller)\<close>

text \<open>
  String operations of JavaScript on 8-bit characters: \<^verbatim>\<open>toLowerCase\<close> (the letters A to Z
  and the accented capitals of Latin-1), \<^verbatim>\<open>startsWith\<close>, \<^verbatim>\<open>includes\<close> (here \<open>str_includes\<close>) and \<^verbatim>\<open>trim\<close>.
\<close>

definition lower_char :: "char \<Rightarrow> char" where
  "lower_char c =
     (let n = (of_char c :: nat)
      in if (65 \<le> n \<and> n \<le> 90) \<or> (192 \<le> n \<and> n \<le> 222 \<and> n \<noteq> 215)
         then char_of (n + 32) else c)"

definition toLowerCase :: "string \<Rightarrow> string" where
  "toLowerCase s = map lower_char s"

fun startsWith :: "string \<Rightarrow> string \<Rightarrow> bool" where
  "startsWith s [] = True"
| "startsWith [] (p # ps) = False"
| "startsWith (c # cs) (p # ps) = (c = p \<and> startsWith cs ps)"

fun str_includes :: "string \<Rightarrow> string \<Rightarrow> bool" where
  "str_includes [] sub = (sub = [])"
| "str_includes (c # cs) sub = (startsWith (c # cs) sub \<or> str_includes cs sub)"

definition trim :: "string \<Rightarrow> string" where
  "trim s = rev (dropWhile isSpace (rev (dropWhile isSpace s)))"

text \<open>
  \<^verbatim>\<open>detectMessageType\<close> of config/defaultAnswers.js: the first group of keywords found in
  the lower-cased message decides; the message types are the strings of the source.
\<close>

definition detectMessageType :: "string \<Rightarrow> string" where
  "detectMessageType userMessage =
     (let message = toLowerCase userMessage
      in if str_includes message ''hello'' \<or> message = ''hi'' \<or> startsWith message ''hi ''
            \<or> message = ''hey'' \<or> startsWith message ''hey ''
            \<or> str_includes message ''good morning'' \<or> str_includes message ''good afternoon''
            \<or> str_includes message ''good evening''
         then ''greeting''
         else if str_includes message ''help'' \<or> str_includes message ''support''
            \<or> str_includes message ''assistance''
         then ''help''
         else if str_includes message ''contact'' \<or> str_includes message ''phone''
            \<or> str_includes message ''email'' \<or> str_includes message ''reach''
            \<or> str_includes message ''speak to''
         then ''contact''
         else if str_includes message ''price'' \<or> str_includes message ''cost''
            \<or> str_includes message ''fee'' \<or> str_includes message ''how much''
            \<or> str_includes message ''pricing''
         then ''pricing''
         else if str_includes message ''technical'' \<or> str_includes message ''troubleshoot''
            \<or> str_includes message ''problem'' \<or> str_includes message ''issue''
            \<or> str_includes message ''error''
         then ''technical''
         else if str_includes message ''account'' \<or> str_includes message ''login''
            \<or> str_includes message ''password'' \<or> str_includes message ''sign in''
            \<or> str_includes message ''register''
         then ''account''
         else if str_includes message ''thank'' \<or> str_includes message ''thanks''
            \<or> str_includes message ''appreciate''
         then ''thanks''
         else if str_includes message ''bye'' \<or> str_includes message ''goodbye''
            \<or> str_includes message ''see you'' \<or> str_includes message ''farewell''
         then ''goodbye''
         else ''notFound'')"

text \<open>
  The table inside \<^verbatim>\<open>getDefaultAnswer\<close> (the same texts as the default export) and the
  lookup \<^verbatim>\<open>defaultAnswers[messageType] || defaultAnswers.notFound\<close>.
\<close>

definition notFound_answer :: string where
  "notFound_answer = ''Sorry, I don't have that information in the uploaded documents. Please contact our support team for assistance.''"

definition defaultAnswers :: "(string \<times> string) list" where
  "defaultAnswers =
     [(''greeting'', ''Hello! How can I help you today?''),
      (''help'', ''I'm here to help! You can ask me about our products, services, or any other information you need.''),
      (''contact'', ''For direct contact with our team, you can reach out through our support channels.''),
      (''pricing'', ''I don't have specific pricing information in the uploaded documents. Please contact our sales team for a personalized quote.''),
      (''technical'', ''I don't have specific technical information about that. Our technical support team would be happy to assist you.''),
      (''account'', ''I don't have specific account information in the uploaded documents. Please contact our support team for account assistance.''),
      (''thanks'', ''You're very welcome! I'm glad I could help. Is there anything else you'd like to know?''),
      (''goodbye'', ''Goodbye! It was great helping you today. Feel free to come back anytime if you have more questions.''),
      (''fallback'', ''I don't have specific information about that. Please contact support for more details.''),
      (''notFound'', notFound_answer)]"

definition getDefaultAnswer :: "string \<Rightarrow> string" where
  "getDefaultAnswer messageType =
     (case map_of defaultAnswers messageType of
        Some answer \<Rightarrow> answer
      | None \<Rightarrow> notFound_answer)"

text \<open>
  The response object of \<^verbatim>\<open>generateChatResponse\<close>, without its timestamp; the three
  numbers are the \<^verbatim>\<open>usage\<close> counts.
\<close>

record chat_response =
  message :: string
  confidence :: real
  source :: string
  messageType :: string
  promptTokens :: nat
  completionTokens :: nat
  totalTokens :: nat
  model :: string

text \<open>
  \<^verbatim>\<open>
  const messageType = detectMessageType(userMessage);
  const isPureConversational = ["greeting", "thanks", "goodbye"].includes(messageType);
  // Step 2
  if (isPureConversational && (!context || context.trim().length === 0)) {
    const defaultResponse = getDefaultAnswer(messageType);
    return { message: defaultResponse, confidence: 0.8, source: "default",
             messageType: messageType,
             usage: { promptTokens: 50, completionTokens: 20, totalTokens: 70 },
             model: "pdf-default-response", ... };
  }
  // Step 3
  if (context && context.trim().length > 0) {
    ... score the lines of the context; when a line is relevant, Step 4 returns
        { message: pdfResponse, confidence: 0.9, source: "pdf", ... } ...
  }
  // Step 5
  return { message: defaultAnswers.notFound, confidence: 0.3, source: "default",
           messageType: "notFound",
           usage: { promptTokens: 30, completionTokens: 15, totalTokens: 45 },
           model: "pdf-notfound-response", ... };
  \<close>
  Steps 3 and 4, the line scoring and answer extraction, run only on a context that is
  not blank. They are the parameter \<open>analyse\<close>: applied to the message and the context it
  returns the grounded response, or nothing when no line is relevant (Step 5 follows),
  or the message of the error it throws, which the function rethrows wrapped.
\<close>

definition generateChatResponse :: "(string \<Rightarrow> string \<Rightarrow> string + chat_response option)
    \<Rightarrow> string \<Rightarrow> string \<Rightarrow> thrown + chat_response" where
  "generateChatResponse analyse userMessage context =
     (let messageType = detectMessageType userMessage;
          isPureConversational = (messageType \<in> set [''greeting'', ''thanks'', ''goodbye''])
      in if isPureConversational \<and> (context = [] \<or> length (trim context) = 0)
         then Inr \<lparr>message = getDefaultAnswer messageType, confidence = 8 / 10,
                    source = ''default'', messageType = messageType,
                    promptTokens = 50, completionTokens = 20, totalTokens = 70,
                    model = ''pdf-default-response''\<rparr>
         else
           (case (if context \<noteq> [] \<and> length (trim context) > 0
                  then analyse userMessage context else Inr None) of
              Inl msg \<Rightarrow>
                Inl (Error (''Failed to generate PDF-grounded chat response: '' @ msg))
            | Inr (Some response) \<Rightarrow> Inr response
            | Inr None \<Rightarrow>
                Inr \<lparr>message = notFound_answer, confidence = 3 / 10,
                      source = ''default'', messageType = ''notFound'',
                      promptTokens = 30, completionTokens = 15, totalTokens = 45,
                      model = ''pdf-notfound-response''\<rparr>))"

text \<open>
  How the chat controller turns the matches of a search into the context:
  \<^verbatim>\<open>
  let context = "";
  const highQualityMatches = similarDocs.filter((doc) => doc.similarity >= 0.5);
  if (highQualityMatches.length > 0) {
    context = highQualityMatches.map((doc) => doc.embedding.text).join("\n\n");
    response = await generateChatResponse(message, context);
  } else {
    if (similarDocs.length > 0) {
      context = similarDocs.map((doc) => doc.embedding.text).join("\n\n");
    }
    response = await generateChatResponse(message, context);
  }
  \<close>
\<close>

fun join_paragraphs :: "string list \<Rightarrow> string" where
  "join_paragraphs [] = []"
| "join_paragraphs [t] = t"
| "join_paragraphs (t # u # ts) = t @ [CHR 0x0A, CHR 0x0A] @ join_paragraphs (u # ts)"

definition context_of :: "retrieval_match list \<Rightarrow> string" where
  "context_of similarDocs =
     (let highQualityMatches = filter (\<lambda>d. similarity d \<ge> 5 / 10) similarDocs
      in if length highQualityMatches > 0
         then join_paragraphs (map (\<lambda>d. chunkText (matched d)) highQualityMatches)
         else if length similarDocs > 0
         then join_paragraphs (map (\<lambda>d. chunkText (matched d)) similarDocs)
         else [])"

definition answer :: "(string \<Rightarrow> string \<Rightarrow> string + chat_response option)
    \<Rightarrow> string \<Rightarrow> retrieval_match list \<Rightarrow> thrown + chat_response" where
  "answer analyse userMessage similarDocs =
     generateChatResponse analyse userMessage (context_of similarDocs)"

text \<open>An analysis that finds no relevant line, for concrete runs.\<close>

definition no_relevant_line :: "string \<Rightarrow> string \<Rightarrow> string + chat_response option" where
  "no_relevant_line userMessage context = Inr None"


section \<open>Properties of the tenant counters\<close>

lemma decrement_documents_of:
  "documents_of (decrementDocumentCount t) =
     (if documents_of t > 0 then documents_of t - 1 else documents_of t)"
  by (simp add: documents_of_def decrementDocumentCount_def)

lemma increment_documents_of:
  "documents_of (incrementDocumentCount t) = documents_of t + 1"
  by (simp add: documents_of_def incrementDocumentCount_def)

lemma counter_ops_nonneg:
  "0 \<le> documents_of t \<Longrightarrow> 0 \<le> documents_of (fold apply_counter_op ops t)"
proof (induction ops arbitrary: t)
  case Nil
  then show ?case by simp
next
  case (Cons op ops)
  have "0 \<le> documents_of (apply_counter_op op t)"
    using Cons.prems
    by (cases op) (simp_all add: decrement_documents_of increment_documents_of)
  then show ?case using Cons.IH by simp
qed

text \<open>
  Claim C10. Starting from a tenant whose \<open>currentDocuments\<close> is not negative,
  \<open>decrementDocumentCount\<close> leaves a counter of 0 unchanged and otherwise lowers it by
  exactly 1, so the counter stays non-negative; \<open>incrementDocumentCount\<close> keeps it
  non-negative too, and so does every sequence of increments and decrements.
\<close>

theorem decrementDocumentCount_never_negative:
  "0 \<le> currentDocuments (subscription t) \<Longrightarrow>
     currentDocuments (subscription (decrementDocumentCount t)) =
       (if currentDocuments (subscription t) = 0 then 0
        else currentDocuments (subscription t) - 1)
     \<and> 0 \<le> currentDocuments (subscription (decrementDocumentCount t))
     \<and> 0 \<le> currentDocuments (subscription (incrementDocumentCount t))
     \<and> 0 \<le> currentDocuments (subscription (fold apply_counter_op ops t))"
proof -
  assume nonneg: "0 \<le> currentDocuments (subscription t)"
  then have t0: "0 \<le> documents_of t" by (simp add: documents_of_def)
  have dec: "currentDocuments (subscription (decrementDocumentCount t)) =
           (if currentDocuments (subscription t) = 0 then 0
            else currentDocuments (subscription t) - 1)"
    using nonneg decrement_documents_of [of t] by (auto simp: documents_of_def)
  have inc: "0 \<le> currentDocuments (subscription (incrementDocumentCount t))"
    using nonneg increment_documents_of [of t] by (auto simp: documents_of_def)
  have run: "0 \<le> currentDocuments (subscription (fold apply_counter_op ops t))"
    using counter_ops_nonneg [OF t0, of ops] by (simp add: documents_of_def)
  from dec nonneg have "0 \<le> currentDocuments (subscription (decrementDocumentCount t))"
    by (simp split: if_splits)
  with dec inc run show ?thesis by blast
qed

theorem decrementDocumentCount_never_negative_witness:
  "0 \<le> currentDocuments (subscription demo_tenant)
   \<and> currentDocuments (subscription (decrementDocumentCount demo_tenant)) = 0
   \<and> 0 \<le> currentDocuments (subscription (incrementDocumentCount demo_tenant))
   \<and> 0 \<le> currentDocuments (subscription
         (fold apply_counter_op [Decrement, Increment, Decrement, Decrement] demo_tenant))"
proof -
  have h: "0 \<le> currentDocuments (subscription demo_tenant)"
    by (simp add: demo_tenant_def)
  show ?thesis
    using h decrementDocumentCount_never_negative
      [OF h, of "[Decrement, Increment, Decrement, Decrement]"]
    by (simp add: demo_tenant_def)
qed


section \<open>Properties of the chunker\<close>

lemma split_ws_unfold:
  "split_ws s =
     (if dropWhile (\<lambda>c. \<not> isSpace c) s = [] then [takeWhile (\<lambda>c. \<not> isSpace c) s]
      else takeWhile (\<lambda>c. \<not> isSpace c) s
             # split_ws (dropWhile isSpace (dropWhile (\<lambda>c. \<not> isSpace c) s)))"
  by (subst split_ws.simps) (simp add: Let_def)

lemma split_ws_not_empty: "split_ws s \<noteq> []"
  by (subst split_ws_unfold) simp

lemma split_ws_no_whitespace:
  "w \<in> set (split_ws s) \<Longrightarrow> c \<in> set w \<Longrightarrow> \<not> isSpace c"
proof (induction s arbitrary: w rule: split_ws.induct)
  case (1 s)
  let ?r = "dropWhile (\<lambda>c. \<not> isSpace c) s"
  let ?w = "takeWhile (\<lambda>c. \<not> isSpace c) s"
  from "1.prems"(1) split_ws_unfold [of s]
  have "w = ?w \<or> (?r \<noteq> [] \<and> w \<in> set (split_ws (dropWhile isSpace ?r)))"
    by (auto split: if_splits)
  then show ?case
  proof
    assume "w = ?w"
    with "1.prems"(2) show ?thesis by (auto dest: set_takeWhileD)
  next
    assume "?r \<noteq> [] \<and> w \<in> set (split_ws (dropWhile isSpace ?r))"
    then show ?thesis using "1.IH" [OF refl refl _ _ "1.prems"(2)] by blast
  qed
qed

lemma space_isSpace: "isSpace (CHR '' '')"
  by (simp add: isSpace_def)

lemma split_ws_no_space: "w \<in> set (split_ws s) \<Longrightarrow> CHR '' '' \<notin> set w"
  using split_ws_no_whitespace space_isSpace by blast

lemma split_space_word: "CHR '' '' \<notin> set w \<Longrightarrow> split_space w = [w]"
  by (induction w) auto

lemma split_space_word_then:
  "CHR '' '' \<notin> set w \<Longrightarrow> split_space (w @ CHR '' '' # s) = w # split_space s"
  by (induction w) auto

lemma split_space_join_space:
  "ws \<noteq> [] \<Longrightarrow> \<forall>w\<in>set ws. CHR '' '' \<notin> set w \<Longrightarrow> split_space (join_space ws) = ws"
  by (induction ws rule: join_space.induct)
     (auto simp: split_space_word split_space_word_then)

lemma count_tokens_join_space:
  "ws \<noteq> [] \<Longrightarrow> \<forall>w\<in>set ws. CHR '' '' \<notin> set w \<Longrightarrow> count_tokens (join_space ws) = length ws"
  by (simp add: count_tokens_def split_space_join_space)

text \<open>
  The loop invariant for a positive \<open>maxTokens\<close>: every chunk already emitted holds
  exactly \<open>maxTokens\<close> words and the chunk under construction holds fewer.
\<close>

lemma chunk_loop_invariant:
  assumes "0 < M"
    and "\<forall>w\<in>set ws. CHR '' '' \<notin> set w"
    and "\<forall>w\<in>set cur. CHR '' '' \<notin> set w"
    and "length cur < M"
    and "\<forall>c\<in>set chunks. count_tokens c = M"
    and "chunk_loop M ws chunks cur = (chunks', cur')"
  shows "(\<forall>c\<in>set chunks'. count_tokens c = M) \<and> length cur' < M
         \<and> (\<forall>w\<in>set cur'. CHR '' '' \<notin> set w)"
  using assms
proof (induction ws arbitrary: chunks cur)
  case Nil
  then show ?case by simp
next
  case (Cons word words)
  let ?cur = "cur @ [word]"
  have nospace: "\<forall>w\<in>set ?cur. CHR '' '' \<notin> set w"
    using Cons.prems(2,3) by simp
  show ?case
  proof (cases "M \<le> length ?cur")
    case True
    with Cons.prems(4) have len: "length ?cur = M" by simp
    have "count_tokens (join_space ?cur) = M"
      using count_tokens_join_space [of ?cur] nospace len by simp
    with Cons.prems(5) have all: "\<forall>c\<in>set (chunks @ [join_space ?cur]). count_tokens c = M"
      by simp
    from True Cons.prems(6)
    have run: "chunk_loop M words (chunks @ [join_space ?cur]) [] = (chunks', cur')"
      by (simp add: Let_def)
    show ?thesis
      using Cons.IH [OF Cons.prems(1) _ _ _ all run] Cons.prems(1,2) by simp
  next
    case False
    then have len: "length ?cur < M" by simp
    from False Cons.prems(6) have run: "chunk_loop M words chunks ?cur = (chunks', cur')"
      by (simp add: Let_def)
    show ?thesis
      using Cons.IH [OF Cons.prems(1) _ nospace len Cons.prems(5) run] Cons.prems(2) by simp
  qed
qed

lemma chunk_loop_progress:
  "ws \<noteq> [] \<or> chunks \<noteq> [] \<or> cur \<noteq> [] \<Longrightarrow> chunk_loop M ws chunks cur = (chunks', cur')
     \<Longrightarrow> chunks' \<noteq> [] \<or> cur' \<noteq> []"
  by (induction ws arbitrary: chunks cur) (auto simp: Let_def split: if_splits)

text \<open>
  The chunker never returns the empty array: \<open>split\<close> yields at least one (possibly
  empty) word, and every word ends up in a chunk.
\<close>

lemma splitTextIntoChunks_not_empty: "splitTextIntoChunks D M \<noteq> []"
proof -
  obtain chunks cur where run: "chunk_loop M (split_ws D) [] [] = (chunks, cur)"
    by (cases "chunk_loop M (split_ws D) [] []")
  from chunk_loop_progress [OF _ run] split_ws_not_empty [of D]
  have "chunks \<noteq> [] \<or> cur \<noteq> []" by simp
  with run show ?thesis by (auto simp: splitTextIntoChunks_def)
qed

lemma splitTextIntoChunks_shape:
  assumes "0 < M"
  shows "(\<forall>c\<in>set (butlast (splitTextIntoChunks D M)). count_tokens c = M)
       \<and> (\<forall>c\<in>set (splitTextIntoChunks D M). 1 \<le> count_tokens c \<and> count_tokens c \<le> M)"
proof -
  obtain chunks cur where run: "chunk_loop M (split_ws D) [] [] = (chunks, cur)"
    by (cases "chunk_loop M (split_ws D) [] []")
  have words: "\<forall>w\<in>set (split_ws D). CHR '' '' \<notin> set w"
    using split_ws_no_space by blast
  from chunk_loop_invariant [OF assms words _ _ _ run] assms
  have full: "\<forall>c\<in>set chunks. count_tokens c = M"
    and short: "length cur < M"
    and clean: "\<forall>w\<in>set cur. CHR '' '' \<notin> set w"
    by simp_all
  show ?thesis
  proof (cases "cur = []")
    case True
    with run have "splitTextIntoChunks D M = chunks"
      by (simp add: splitTextIntoChunks_def)
    with full assms show ?thesis by (auto dest: in_set_butlastD)
  next
    case False
    with run have eq: "splitTextIntoChunks D M = chunks @ [join_space cur]"
      by (simp add: splitTextIntoChunks_def)
    have "count_tokens (join_space cur) = length cur"
      using count_tokens_join_space [OF False clean] .
    with short False have "1 \<le> count_tokens (join_space cur) \<and> count_tokens (join_space cur) \<le> M"
      by (cases cur) simp_all
    with full assms eq show ?thesis by auto
  qed
qed

text \<open>Each chunk holds its words in order, so the chunks together hold all words of the text.\<close>

lemma chunk_loop_words:
  assumes "\<forall>w\<in>set ws. CHR '' '' \<notin> set w"
    and "\<forall>w\<in>set cur. CHR '' '' \<notin> set w"
    and "chunk_loop M ws chunks cur = (chunks', cur')"
  shows "concat (map split_space chunks') @ cur' = concat (map split_space chunks) @ cur @ ws
         \<and> (\<forall>w\<in>set cur'. CHR '' '' \<notin> set w)"
  using assms
proof (induction ws arbitrary: chunks cur)
  case Nil
  then show ?case by simp
next
  case (Cons word words)
  let ?cur = "cur @ [word]"
  have nospace: "\<forall>w\<in>set ?cur. CHR '' '' \<notin> set w"
    using Cons.prems(1,2) by simp
  have rest: "\<forall>w\<in>set words. CHR '' '' \<notin> set w"
    using Cons.prems(1) by simp
  show ?case
  proof (cases "M \<le> length ?cur")
    case True
    with Cons.prems(3)
    have run: "chunk_loop M words (chunks @ [join_space ?cur]) [] = (chunks', cur')"
      by (simp add: Let_def)
    have "split_space (join_space ?cur) = ?cur"
      using split_space_join_space [of ?cur] nospace by simp
    with Cons.IH [OF rest _ run] show ?thesis by simp
  next
    case False
    with Cons.prems(3) have run: "chunk_loop M words chunks ?cur = (chunks', cur')"
      by (simp add: Let_def)
    from Cons.IH [OF rest nospace run] show ?thesis by simp
  qed
qed

lemma splitTextIntoChunks_words:
  "concat (map split_space (splitTextIntoChunks D M)) = split_ws D"
proof -
  obtain chunks cur where run: "chunk_loop M (split_ws D) [] [] = (chunks, cur)"
    by (cases "chunk_loop M (split_ws D) [] []")
  have words: "\<forall>w\<in>set (split_ws D). CHR '' '' \<notin> set w"
    using split_ws_no_space by blast
  from chunk_loop_words [OF words _ run]
  have all: "concat (map split_space chunks) @ cur = split_ws D"
    and clean: "\<forall>w\<in>set cur. CHR '' '' \<notin> set w"
    by simp_all
  show ?thesis
  proof (cases "cur = []")
    case True
    with run all show ?thesis by (simp add: splitTextIntoChunks_def)
  next
    case False
    then have "split_space (join_space cur) = cur"
      using split_space_join_space clean by blast
    with False run all show ?thesis by (simp add: splitTextIntoChunks_def)
  qed
qed

text \<open>
  Claim C2. An empty or whitespace-only text should give zero chunks. The code does not do
  that: the admin controller's chunker turns the empty text into the one chunk \<^verbatim>\<open>""\<close>
  and a text of three spaces into the one chunk \<^verbatim>\<open>" "\<close>; the file parser's chunker
  returns no chunk for the empty text (its extra guard) but also the chunk \<^verbatim>\<open>" "\<close> for
  the three spaces. (800 is the word limit the ingestion job passes.)
\<close>

theorem splitTextIntoChunks_blank_text:
  "splitTextIntoChunks '''' 800 = ['''']
   \<and> splitTextIntoChunks ''   '' 800 = ['' '']
   \<and> splitTextIntoChunks_fileParser '''' 800 = []
   \<and> splitTextIntoChunks_fileParser ''   '' 800 = ['' '']"
  by (simp add: splitTextIntoChunks_fileParser_def splitTextIntoChunks_def
      split_ws.simps isSpace_def)

text \<open>
  Claim C9. The chunker is a function of the text and the word limit alone (the source
  reads nothing else), so two runs on the same input give the same chunk sequence. For a
  positive word limit \<open>M\<close>, every chunk but the last holds exactly \<open>M\<close> words and every
  chunk, the last included, holds at least one and at most \<open>M\<close> words, counted the way the
  code counts them (\<^verbatim>\<open>chunk.split(" ").length\<close>); the words of the chunks, in order,
  are the words of the text.
\<close>

theorem splitTextIntoChunks_deterministic_and_bounded:
  "0 < M \<Longrightarrow>
     (let first_run = splitTextIntoChunks D M; second_run = splitTextIntoChunks D M
      in first_run = second_run)
     \<and> (\<forall>c\<in>set (butlast (splitTextIntoChunks D M)). count_tokens c = M)
     \<and> (\<forall>c\<in>set (splitTextIntoChunks D M). 1 \<le> count_tokens c \<and> count_tokens c \<le> M)
     \<and> concat (map split_space (splitTextIntoChunks D M)) = split_ws D"
  using splitTextIntoChunks_shape [of M D] splitTextIntoChunks_words [of D M]
  by (simp add: Let_def)

theorem splitTextIntoChunks_deterministic_and_bounded_witness:
  "0 < (2::nat)
   \<and> splitTextIntoChunks (CHR '' '' # ''a  b c d'') 2 = [CHR '' '' # ''a'', ''b c'', ''d'']
   \<and> map count_tokens (splitTextIntoChunks (CHR '' '' # ''a  b c d'') 2) = [2, 2, 1]
   \<and> concat (map split_space (splitTextIntoChunks (CHR '' '' # ''a  b c d'') 2))
       = split_ws (CHR '' '' # ''a  b c d'')"
proof -
  have h: "0 < (2::nat)" by simp
  have run: "splitTextIntoChunks (CHR '' '' # ''a  b c d'') 2
             = [CHR '' '' # ''a'', ''b c'', ''d'']"
    by (simp add: splitTextIntoChunks_def split_ws.simps isSpace_def)
  show ?thesis
    using splitTextIntoChunks_deterministic_and_bounded [OF h, of "CHR '' '' # ''a  b c d''"] run
    by (simp add: Let_def count_tokens_def)
qed

section \<open>Properties of the calls with retry\<close>

lemma retry_loop_unfold_fail:
  "attempt \<le> maxRetries \<Longrightarrow> generate input s = (Inl msg, s1) \<Longrightarrow>
     retry_loop generate input maxRetries attempt lastError s trace =
       retry_loop generate input maxRetries (attempt + 1) (Error msg) s1
         (trace @ [Attempt attempt (Some (Error msg))]
            @ (if attempt < maxRetries then [Sleep (backoff_delay attempt)] else []))"
  by (subst retry_loop.simps) (simp add: backoff_delay_def)

lemma retry_loop_unfold_ok:
  "attempt \<le> maxRetries \<Longrightarrow> generate input s = (Inr v, s1) \<Longrightarrow>
     retry_loop generate input maxRetries attempt lastError s trace =
       (Inr v, s1, trace @ [Attempt attempt None])"
  by (subst retry_loop.simps) simp

lemma retry_loop_unfold_done:
  "maxRetries < attempt \<Longrightarrow>
     retry_loop generate input maxRetries attempt lastError s trace = (Inl lastError, s, trace)"
  by (subst retry_loop.simps) simp

lemma provider_call_ok:
  assumes "1 \<le> k" and "outcome_at generate input s k = Inr v"
  shows "generate input (provider_state generate input s (k - 1))
           = (Inr v, provider_state generate input s k)"
proof -
  from assms(1) obtain m where k: "k = Suc m" by (cases k) auto
  obtain r s1 where call: "generate input (provider_state generate input s m) = (r, s1)"
    by (cases "generate input (provider_state generate input s m)")
  with assms(2) show ?thesis unfolding k outcome_at_def by (cases r) simp_all
qed

lemma provider_call_fail:
  assumes "1 \<le> k" and "outcome_at generate input s k = Inl e"
  shows "\<exists>msg. e = Error msg
           \<and> generate input (provider_state generate input s (k - 1))
               = (Inl msg, provider_state generate input s k)"
proof -
  from assms(1) obtain m where k: "k = Suc m" by (cases k) auto
  obtain r s1 where call: "generate input (provider_state generate input s m) = (r, s1)"
    by (cases "generate input (provider_state generate input s m)")
  with assms(2) show ?thesis unfolding k outcome_at_def by (cases r) auto
qed

lemma retry_loop_run:
  assumes "1 \<le> attempt" and "attempt \<le> maxRetries"
    and "\<forall>k. 1 \<le> k \<and> k < attempt \<longrightarrow> isl (outcome_at generate input s k)"
  shows "\<exists>n. attempt \<le> n \<and> n \<le> maxRetries
           \<and> (\<forall>k. 1 \<le> k \<and> k < n \<longrightarrow> isl (outcome_at generate input s k))
           \<and> (n < maxRetries \<longrightarrow> \<not> isl (outcome_at generate input s n))
           \<and> retry_loop generate input maxRetries attempt lastError
                 (provider_state generate input s (attempt - 1)) trace
               = (outcome_at generate input s n, provider_state generate input s n,
                  trace
                  @ concat (map (\<lambda>k. [Attempt k (error_at generate input s k),
                                       Sleep (backoff_delay k)]) [attempt..<n])
                  @ [Attempt n (error_at generate input s n)])"
  using assms
proof (induction "maxRetries - attempt" arbitrary: attempt lastError trace)
  case 0
  then have last_one: "attempt = maxRetries" by simp
  show ?case
  proof (cases "outcome_at generate input s attempt")
    case (Inr v)
    note call = provider_call_ok [OF "0.prems"(1) Inr]
    with Inr "0.prems"(2)
    have "retry_loop generate input maxRetries attempt lastError
            (provider_state generate input s (attempt - 1)) trace
          = (outcome_at generate input s attempt, provider_state generate input s attempt,
             trace @ [Attempt attempt (error_at generate input s attempt)])"
      by (simp add: retry_loop_unfold_ok error_at_def)
    with "0.prems" last_one show ?thesis by (intro exI [of _ attempt]) simp
  next
    case (Inl e)
    from provider_call_fail [OF "0.prems"(1) Inl]
    obtain msg where e: "e = Error msg"
      and call: "generate input (provider_state generate input s (attempt - 1))
               = (Inl msg, provider_state generate input s attempt)"
      by blast
    with Inl "0.prems"(2) last_one
    have "retry_loop generate input maxRetries attempt lastError
            (provider_state generate input s (attempt - 1)) trace
          = (outcome_at generate input s attempt, provider_state generate input s attempt,
             trace @ [Attempt attempt (error_at generate input s attempt)])"
      by (simp add: retry_loop_unfold_fail retry_loop_unfold_done error_at_def)
    with "0.prems" last_one show ?thesis by (intro exI [of _ attempt]) simp
  qed
next
  case (Suc m)
  then have more: "attempt < maxRetries" by simp
  show ?case
  proof (cases "outcome_at generate input s attempt")
    case (Inr v)
    note call = provider_call_ok [OF Suc.prems(1) Inr]
    with Inr Suc.prems(2)
    have "retry_loop generate input maxRetries attempt lastError
            (provider_state generate input s (attempt - 1)) trace
          = (outcome_at generate input s attempt, provider_state generate input s attempt,
             trace @ [Attempt attempt (error_at generate input s attempt)])"
      by (simp add: retry_loop_unfold_ok error_at_def)
    with Suc.prems Inr show ?thesis by (intro exI [of _ attempt]) simp
  next
    case (Inl e)
    from provider_call_fail [OF Suc.prems(1) Inl]
    obtain msg where e: "e = Error msg"
      and call: "generate input (provider_state generate input s (attempt - 1))
               = (Inl msg, provider_state generate input s attempt)"
      by blast
    let ?f = "\<lambda>k. [Attempt k (error_at generate input s k), Sleep (backoff_delay k)]"
    let ?trace = "trace @ [Attempt attempt (Some e), Sleep (backoff_delay attempt)]"
    from Inl e call Suc.prems(2) more
    have step: "retry_loop generate input maxRetries attempt lastError
            (provider_state generate input s (attempt - 1)) trace
          = retry_loop generate input maxRetries (attempt + 1) e
              (provider_state generate input s ((attempt + 1) - 1)) ?trace"
      by (simp add: retry_loop_unfold_fail)
    have failed: "\<forall>k. 1 \<le> k \<and> k < attempt + 1 \<longrightarrow> isl (outcome_at generate input s k)"
    proof (intro allI impI)
      fix k assume k: "1 \<le> k \<and> k < attempt + 1"
      show "isl (outcome_at generate input s k)"
      proof (cases "k = attempt")
        case True with Inl show ?thesis by simp
      next
        case False with k Suc.prems(3) show ?thesis by simp
      qed
    qed
    have m: "m = maxRetries - (attempt + 1)" using Suc.hyps(2) by simp
    have a1: "1 \<le> attempt + 1" by simp
    have a2: "attempt + 1 \<le> maxRetries" using more by simp
    from Suc.hyps(1) [OF m a1 a2 failed, of e ?trace]
    obtain n where n: "attempt + 1 \<le> n" "n \<le> maxRetries"
      and before: "\<forall>k. 1 \<le> k \<and> k < n \<longrightarrow> isl (outcome_at generate input s k)"
      and stop: "n < maxRetries \<longrightarrow> \<not> isl (outcome_at generate input s n)"
      and run: "retry_loop generate input maxRetries (attempt + 1) e
                  (provider_state generate input s ((attempt + 1) - 1)) ?trace
                = (outcome_at generate input s n, provider_state generate input s n,
                   ?trace @ concat (map ?f [attempt + 1..<n])
                   @ [Attempt n (error_at generate input s n)])"
      by blast
    have split: "[attempt..<n] = attempt # [attempt + 1..<n]"
      using n(1) by (simp add: upt_conv_Cons)
    have "error_at generate input s attempt = Some e"
      using Inl by (simp add: error_at_def)
    then have "concat (map ?f [attempt..<n])
          = [Attempt attempt (Some e), Sleep (backoff_delay attempt)]
            @ concat (map ?f [attempt + 1..<n])"
      by (subst split) simp
    with step run have "retry_loop generate input maxRetries attempt lastError
            (provider_state generate input s (attempt - 1)) trace
          = (outcome_at generate input s n, provider_state generate input s n,
             trace @ concat (map ?f [attempt..<n])
             @ [Attempt n (error_at generate input s n)])"
      by simp
    with n before stop show ?thesis by (intro exI [of _ n]) simp
  qed
qed

lemma with_retry_follows_policy:
  assumes "0 < maxRetries"
  shows "follows_retry_policy maxRetries generate input s
           (retry_loop generate input maxRetries 1 Undefined s [])"
proof -
  have "1 \<le> (1::nat)" by simp
  moreover from assms have "1 \<le> maxRetries" by simp
  moreover have "\<forall>k. 1 \<le> k \<and> k < (1::nat) \<longrightarrow> isl (outcome_at generate input s k)" by simp
  ultimately obtain n where "1 \<le> n" "n \<le> maxRetries"
      "\<forall>k. 1 \<le> k \<and> k < n \<longrightarrow> isl (outcome_at generate input s k)"
      "n < maxRetries \<longrightarrow> \<not> isl (outcome_at generate input s n)"
      "retry_loop generate input maxRetries 1 Undefined
                 (provider_state generate input s (1 - 1)) []
               = (outcome_at generate input s n, provider_state generate input s n,
                  []
                  @ concat (map (\<lambda>k. [Attempt k (error_at generate input s k),
                                       Sleep (backoff_delay k)]) [1..<n])
                  @ [Attempt n (error_at generate input s n)])"
    using retry_loop_run [of 1 maxRetries generate input s Undefined "[]"] by blast
  then show ?thesis
    unfolding follows_retry_policy_def policy_trace_def by (intro exI [of _ n]) simp
qed

lemma follows_retry_policy_all_fail:
  assumes "follows_retry_policy maxRetries generate input s outcome"
    and "\<forall>k. 1 \<le> k \<and> k \<le> maxRetries \<longrightarrow> isl (outcome_at generate input s k)"
  shows "outcome = (outcome_at generate input s maxRetries,
                    provider_state generate input s maxRetries,
                    policy_trace generate input s maxRetries)"
proof -
  from assms(1) obtain n where n: "1 \<le> n" "n \<le> maxRetries"
    and stop: "n < maxRetries \<longrightarrow> \<not> isl (outcome_at generate input s n)"
    and out: "outcome = (outcome_at generate input s n, provider_state generate input s n,
                     policy_trace generate input s n)"
    unfolding follows_retry_policy_def by blast
  from n assms(2) have "isl (outcome_at generate input s n)" by simp
  with stop n have "n = maxRetries" by auto
  with out show ?thesis by simp
qed

lemma follows_retry_policy_first_success:
  assumes "follows_retry_policy maxRetries generate input s outcome"
    and "1 \<le> n" "n \<le> maxRetries"
    and "\<forall>k. 1 \<le> k \<and> k < n \<longrightarrow> isl (outcome_at generate input s k)"
    and "\<not> isl (outcome_at generate input s n)"
  shows "outcome = (outcome_at generate input s n, provider_state generate input s n,
                    policy_trace generate input s n)"
proof -
  from assms(1) obtain n' where n': "1 \<le> n'" "n' \<le> maxRetries"
    and before: "\<forall>k. 1 \<le> k \<and> k < n' \<longrightarrow> isl (outcome_at generate input s k)"
    and stop: "n' < maxRetries \<longrightarrow> \<not> isl (outcome_at generate input s n')"
    and out: "outcome = (outcome_at generate input s n', provider_state generate input s n',
                     policy_trace generate input s n')"
    unfolding follows_retry_policy_def by blast
  have "n' = n"
  proof (rule ccontr)
    assume "n' \<noteq> n"
    then consider "n' < n" | "n < n'" by linarith
    then show False
    proof cases
      case 1
      with assms(4) n' have "isl (outcome_at generate input s n')" by simp
      moreover from 1 assms(3) have "n' < maxRetries" by simp
      ultimately show False using stop by simp
    next
      case 2
      with before assms(2) have "isl (outcome_at generate input s n)" by simp
      with assms(5) show False by simp
    qed
  qed
  with out show ?thesis by simp
qed

lemma provider_failing_state: "provider_state provider_failing input s k = s + k"
  by (induction k) (simp_all add: provider_failing_def)

lemma provider_failing_outcome:
  "outcome_at provider_failing input s k = Inl (Error (failure_text (s + (k - 1))))"
  by (simp add: outcome_at_def provider_failing_state) (simp add: provider_failing_def)

lemma provider_recovering_state: "provider_state provider_recovering texts s k = s + k"
  by (induction k) (simp_all add: provider_recovering_def)

lemma provider_recovering_outcome:
  "outcome_at provider_recovering texts s k =
     (if s + (k - 1) < 2 then Inl (Error (failure_text (s + (k - 1))))
      else Inr (map (\<lambda>t. [1, 0]) texts))"
  by (simp add: outcome_at_def provider_recovering_state) (simp add: provider_recovering_def)

lemma policy_trace_3:
  "policy_trace generate input s 3 =
     [Attempt 1 (error_at generate input s 1), Sleep 1000,
      Attempt 2 (error_at generate input s 2), Sleep 2000,
      Attempt 3 (error_at generate input s 3)]"
proof -
  have "[1..<3] = [1, 2::nat]" by (simp add: upt_rec numeral_2_eq_2)
  then show ?thesis by (simp add: policy_trace_def backoff_delay_def)
qed

text \<open>
  Claim C8. With a positive \<open>maxRetries\<close> (the callers pass 3, which is also the
  default), a single-text call and a batch call each call the provider at most
  \<open>maxRetries\<close> times, one call per attempt, threading the provider's state: the
  attempts stop at the first call of the provider that succeeds, whose value is
  returned, or after call number \<open>maxRetries\<close>, whose error is thrown when it fails too;
  the state returned is the state after exactly that many calls; and after a failed
  attempt \<open>k\<close> that is not the last one the call pauses \<open>min (1000 \<times> 2^(k-1)) 5000\<close>
  milliseconds before attempt \<open>k + 1\<close>.
\<close>

theorem retry_calls_provider_within_policy:
  "0 < maxRetries \<Longrightarrow>
     follows_retry_policy maxRetries generateEmbeddings input s
       (generateEmbeddingsWithRetry generateEmbeddings input maxRetries s)
     \<and> follows_retry_policy maxRetries generateBatchEmbeddings texts sb
       (generateBatchEmbeddingsWithRetry generateBatchEmbeddings texts maxRetries sb)"
  unfolding generateEmbeddingsWithRetry_def generateBatchEmbeddingsWithRetry_def
  using with_retry_follows_policy [of maxRetries generateEmbeddings input s]
    with_retry_follows_policy [of maxRetries generateBatchEmbeddings texts sb]
  by blast

theorem retry_calls_provider_within_policy_witness:
  "0 < (3::nat)
   \<and> generateEmbeddingsWithRetry provider_failing ''hello'' 3 0 =
       (Inl (Error ''third failure''), 3,
        [Attempt 1 (Some (Error ''first failure'')), Sleep 1000,
         Attempt 2 (Some (Error ''second failure'')), Sleep 2000,
         Attempt 3 (Some (Error ''third failure''))])
   \<and> generateBatchEmbeddingsWithRetry provider_recovering [''hello'', ''world''] 3 0 =
       (Inr [[1, 0], [1, 0]], 3,
        [Attempt 1 (Some (Error ''first failure'')), Sleep 1000,
         Attempt 2 (Some (Error ''second failure'')), Sleep 2000,
         Attempt 3 None])"
proof -
  have h: "0 < (3::nat)" by simp
  note policy = retry_calls_provider_within_policy
      [OF h, of provider_failing "''hello''" 0 provider_recovering "[''hello'', ''world'']" 0]
  have "\<forall>k. 1 \<le> k \<and> k \<le> 3 \<longrightarrow> isl (outcome_at provider_failing ''hello'' 0 k)"
    by (simp add: provider_failing_outcome)
  from follows_retry_policy_all_fail [OF conjunct1 [OF policy] this]
  have single: "generateEmbeddingsWithRetry provider_failing ''hello'' 3 0 =
       (Inl (Error ''third failure''), 3,
        [Attempt 1 (Some (Error ''first failure'')), Sleep 1000,
         Attempt 2 (Some (Error ''second failure'')), Sleep 2000,
         Attempt 3 (Some (Error ''third failure''))])"
    by (simp add: provider_failing_outcome provider_failing_state policy_trace_3
        error_at_def failure_text_def)
  have "\<forall>k. 1 \<le> k \<and> k < 3 \<longrightarrow> isl (outcome_at provider_recovering [''hello'', ''world''] 0 k)"
    by (auto simp: provider_recovering_outcome)
  moreover have "\<not> isl (outcome_at provider_recovering [''hello'', ''world''] 0 3)"
    by (simp add: provider_recovering_outcome)
  ultimately have batch:
    "generateBatchEmbeddingsWithRetry provider_recovering [''hello'', ''world''] 3 0 =
       (Inr [[1, 0], [1, 0]], 3,
        [Attempt 1 (Some (Error ''first failure'')), Sleep 1000,
         Attempt 2 (Some (Error ''second failure'')), Sleep 2000,
         Attempt 3 None])"
    using follows_retry_policy_first_success [OF conjunct2 [OF policy], of 3]
    by (simp add: provider_recovering_outcome provider_recovering_state policy_trace_3
        error_at_def failure_text_def)
  from h single batch show ?thesis by (intro conjI)
qed

text \<open>The cap of 5000 ms is reached from the fourth failed attempt on.\<close>

lemma backoff_delay_values:
  "map backoff_delay [1, 2, 3, 4, 5] = [1000, 2000, 4000, 5000, 5000]"
  by (simp add: backoff_delay_def)

section \<open>Properties of the ingestion job\<close>

lemma fallback_loop_done:
  "length batchChunks \<le> i \<Longrightarrow> fallback_loop g tid did batchChunks batchIndex i pj = pj"
  by (cases pj) (simp add: fallback_loop.simps)

lemma fallback_loop_step:
  "i < length batchChunks \<Longrightarrow>
   generateEmbeddingsWithRetry g (batchChunks ! i) 3 (world j) = (r, s', trace) \<Longrightarrow>
   fallback_loop g tid did batchChunks batchIndex i (p, j) =
     fallback_loop g tid did batchChunks batchIndex (i + 1)
       (case r of
          Inr v \<Rightarrow> (p + 1, update_progress (p + 1)
                     (j\<lparr>world := s',
                        embeddings := embeddings j
                           @ [embedding_for tid did batchChunks batchIndex i v]\<rparr>))
        | Inl chunkError \<Rightarrow> (p, j\<lparr>world := s'\<rparr>))"
  by (subst fallback_loop.simps) (simp split: sum.splits)

text \<open>
  Whatever is kept by a waiting step (only the world changes) and by a progress step
  (some embeddings are stored, the counter grows by their number and the progress is
  saved) is kept by the fallback, by a batch and by the whole batch loop.
\<close>

lemma fallback_loop_preserves:
  assumes wait: "\<And>p j s'. P p j \<Longrightarrow> P p (j\<lparr>world := s'\<rparr>)"
    and progress: "\<And>p j s' docs. P p j \<Longrightarrow>
          P (p + length docs)
            (update_progress (p + length docs)
               (j\<lparr>world := s', embeddings := embeddings j @ docs\<rparr>))"
    and start: "P p j"
  shows "case fallback_loop g tid did batchChunks batchIndex i (p, j) of (p', j') \<Rightarrow> P p' j'"
  using start
proof (induction "length batchChunks - i" arbitrary: i p j)
  case 0
  then show ?case by (simp add: fallback_loop_done)
next
  case (Suc m)
  then have i: "i < length batchChunks" by simp
  obtain r s' trace
    where call: "generateEmbeddingsWithRetry g (batchChunks ! i) 3 (world j) = (r, s', trace)"
    by (cases "generateEmbeddingsWithRetry g (batchChunks ! i) 3 (world j)")
  have m: "m = length batchChunks - (i + 1)" using Suc.hyps(2) by simp
  show ?case
  proof (cases r)
    case (Inl e)
    from wait [OF Suc.prems] have "P p (j\<lparr>world := s'\<rparr>)" .
    from Suc.hyps(1) [OF m this] show ?thesis
      by (simp add: fallback_loop_step [OF i call] Inl)
  next
    case (Inr v)
    let ?docs = "[embedding_for tid did batchChunks batchIndex i v]"
    from progress [OF Suc.prems, of ?docs s']
    have "P (p + 1) (update_progress (p + 1)
            (j\<lparr>world := s', embeddings := embeddings j @ ?docs\<rparr>))"
      by simp
    from Suc.hyps(1) [OF m this] show ?thesis
      by (simp add: fallback_loop_step [OF i call] Inr)
  qed
qed

lemma process_batch_preserves:
  assumes wait: "\<And>p j s'. P p j \<Longrightarrow> P p (j\<lparr>world := s'\<rparr>)"
    and progress: "\<And>p j s' docs. P p j \<Longrightarrow>
          P (p + length docs)
            (update_progress (p + length docs)
               (j\<lparr>world := s', embeddings := embeddings j @ docs\<rparr>))"
    and start: "P p j"
  shows "case process_batch gb g tid did batchChunks batchIndex (p, j) of (p', j') \<Rightarrow> P p' j'"
proof -
  obtain r s' trace
    where call: "generateBatchEmbeddingsWithRetry gb batchChunks 3 (world j) = (r, s', trace)"
    by (cases "generateBatchEmbeddingsWithRetry gb batchChunks 3 (world j)")
  have fallback: "case fallback_loop g tid did batchChunks batchIndex 0 (p, j\<lparr>world := s'\<rparr>)
                  of (p', j') \<Rightarrow> P p' j'"
  proof (rule fallback_loop_preserves [where P = P])
    show "\<And>p j s'. P p j \<Longrightarrow> P p (j\<lparr>world := s'\<rparr>)"
      by (rule wait)
    show "\<And>p j s' docs. P p j \<Longrightarrow>
          P (p + length docs)
            (update_progress (p + length docs)
               (j\<lparr>world := s', embeddings := embeddings j @ docs\<rparr>))"
      by (rule progress)
    show "P p (j\<lparr>world := s'\<rparr>)"
      by (rule wait [OF start])
  qed
  show ?thesis
  proof (cases r)
    case (Inl e)
    with call fallback show ?thesis by (simp add: process_batch_def)
  next
    case (Inr vs)
    show ?thesis
    proof (cases "length vs \<le> length batchChunks")
      case False
      with Inr call fallback show ?thesis by (simp add: process_batch_def)
    next
      case True
      let ?docs = "map (\<lambda>idx. embedding_for tid did batchChunks batchIndex idx (vs ! idx))
                     [0..<length vs]"
      from progress [OF start, of ?docs s']
      have "P (p + length vs) (update_progress (p + length vs)
              (j\<lparr>world := s', embeddings := embeddings j @ ?docs\<rparr>))"
        by simp
      with True Inr call show ?thesis by (simp add: process_batch_def)
    qed
  qed
qed

lemma batch_loop_preserves:
  assumes wait: "\<And>p j s'. P p j \<Longrightarrow> P p (j\<lparr>world := s'\<rparr>)"
    and progress: "\<And>p j s' docs. P p j \<Longrightarrow>
          P (p + length docs)
            (update_progress (p + length docs)
               (j\<lparr>world := s', embeddings := embeddings j @ docs\<rparr>))"
    and start: "P p j"
  shows "case batch_loop gb g tid did chunks batchIndex (p, j) of (p', j') \<Rightarrow> P p' j'"
  using start
proof (induction "length chunks - batchIndex" arbitrary: batchIndex p j rule: less_induct)
  case less
  show ?case
  proof (cases "batchIndex < length chunks")
    case False
    with less.prems show ?thesis by (simp add: batch_loop.simps)
  next
    case True
    obtain p1 j1 where batch: "process_batch gb g tid did
        (take BATCH_SIZE (drop batchIndex chunks)) batchIndex (p, j) = (p1, j1)"
      by (cases "process_batch gb g tid did
        (take BATCH_SIZE (drop batchIndex chunks)) batchIndex (p, j)")
    have "case process_batch gb g tid did
        (take BATCH_SIZE (drop batchIndex chunks)) batchIndex (p, j) of (p', j') \<Rightarrow> P p' j'"
    proof (rule process_batch_preserves [where P = P])
      show "\<And>p j s'. P p j \<Longrightarrow> P p (j\<lparr>world := s'\<rparr>)"
        by (rule wait)
      show "\<And>p j s' docs. P p j \<Longrightarrow>
            P (p + length docs)
              (update_progress (p + length docs)
                 (j\<lparr>world := s', embeddings := embeddings j @ docs\<rparr>))"
        by (rule progress)
      show "P p j" by (rule less.prems)
    qed
    with batch have p1: "P p1 j1" by simp
    have "length chunks - (batchIndex + BATCH_SIZE) < length chunks - batchIndex"
      using True by (simp add: BATCH_SIZE_def)
    from less.hyps [OF this p1] True batch show ?thesis
      by (subst batch_loop.simps) simp
  qed
qed

lemma counted_wait: "counted n0 p j \<Longrightarrow> counted n0 p (j\<lparr>world := s'\<rparr>)"
  by (simp add: counted_def)

lemma counted_progress:
  "counted n0 p j \<Longrightarrow>
     counted n0 (p + length docs)
       (update_progress (p + length docs)
          (j\<lparr>world := s', embeddings := embeddings j @ docs\<rparr>))"
  by (simp add: counted_def update_progress_def save_def)

lemma monotone_saves_wait: "monotone_saves p j \<Longrightarrow> monotone_saves p (j\<lparr>world := s'\<rparr>)"
  by (simp add: monotone_saves_def)

lemma monotone_saves_progress:
  "monotone_saves p j \<Longrightarrow>
     monotone_saves (p + length docs)
       (update_progress (p + length docs)
          (j\<lparr>world := s', embeddings := embeddings j @ docs\<rparr>))"
  by (fastforce simp: monotone_saves_def update_progress_def save_def sorted_append)

lemma batch_loop_counted:
  "counted n0 p j \<Longrightarrow> batch_loop gb g tid did chunks batchIndex (p, j) = (p', j')
     \<Longrightarrow> counted n0 p' j'"
proof -
  assume start: "counted n0 p j"
    and run: "batch_loop gb g tid did chunks batchIndex (p, j) = (p', j')"
  have "case batch_loop gb g tid did chunks batchIndex (p, j) of
          (p', j') \<Rightarrow> counted n0 p' j'"
    by (rule batch_loop_preserves [where P = "counted n0"])
       (rule counted_wait, assumption, rule counted_progress, assumption, rule start)
  with run show ?thesis by simp
qed

lemma batch_loop_monotone_saves:
  "monotone_saves p j \<Longrightarrow> batch_loop gb g tid did chunks batchIndex (p, j) = (p', j')
     \<Longrightarrow> monotone_saves p' j'"
proof -
  assume start: "monotone_saves p j"
    and run: "batch_loop gb g tid did chunks batchIndex (p, j) = (p', j')"
  have "case batch_loop gb g tid did chunks batchIndex (p, j) of
          (p', j') \<Rightarrow> monotone_saves p' j'"
    by (rule batch_loop_preserves [where P = monotone_saves])
       (rule monotone_saves_wait, assumption, rule monotone_saves_progress, assumption,
        rule start)
  with run show ?thesis by simp
qed

text \<open>When every provider call fails, a call with retry throws.\<close>

lemma retry_loop_always_fails:
  "always_fails generate \<Longrightarrow>
     isl (fst (retry_loop generate input maxRetries attempt lastError s trace))"
proof (induction "maxRetries + 1 - attempt" arbitrary: attempt lastError s trace)
  case 0
  then have "maxRetries < attempt" by simp
  then show ?case by (simp add: retry_loop_unfold_done)
next
  case (Suc m)
  then have le: "attempt \<le> maxRetries" by simp
  obtain r s1 where call: "generate input s = (r, s1)" by (cases "generate input s")
  from Suc.prems have "isl (fst (generate input s))"
    by (simp add: always_fails_def)
  with call obtain msg where r: "r = Inl msg" by (cases r) simp_all
  have "m = maxRetries + 1 - (attempt + 1)" using Suc.hyps(2) by simp
  from Suc.hyps(1) [OF this Suc.prems] show ?case
    using call r by (simp add: retry_loop_unfold_fail [OF le])
qed

lemma fallback_loop_always_fails:
  assumes "always_fails g"
  shows "\<exists>s'. fallback_loop g tid did batchChunks batchIndex i (p, j) = (p, j\<lparr>world := s'\<rparr>)"
proof (induction "length batchChunks - i" arbitrary: i j)
  case 0
  then have "fallback_loop g tid did batchChunks batchIndex i (p, j) = (p, j\<lparr>world := world j\<rparr>)"
    by (simp add: fallback_loop_done)
  then show ?case by blast
next
  case (Suc m)
  then have i: "i < length batchChunks" by simp
  obtain r s' trace
    where call: "generateEmbeddingsWithRetry g (batchChunks ! i) 3 (world j) = (r, s', trace)"
    by (cases "generateEmbeddingsWithRetry g (batchChunks ! i) 3 (world j)")
  have "isl (fst (generateEmbeddingsWithRetry g (batchChunks ! i) 3 (world j)))"
    unfolding generateEmbeddingsWithRetry_def by (rule retry_loop_always_fails [OF assms])
  with call obtain e where r: "r = Inl e" by (cases r) simp_all
  have m: "m = length batchChunks - (i + 1)" using Suc.hyps(2) by simp
  from Suc.hyps(1) [OF m, of "j\<lparr>world := s'\<rparr>"]
  obtain s'' where "fallback_loop g tid did batchChunks batchIndex (i + 1) (p, j\<lparr>world := s'\<rparr>)
      = (p, j\<lparr>world := s''\<rparr>)"
    by auto
  then have "fallback_loop g tid did batchChunks batchIndex i (p, j) = (p, j\<lparr>world := s''\<rparr>)"
    by (simp add: fallback_loop_step [OF i call] r)
  then show ?case by (rule exI)
qed

lemma process_batch_always_fails:
  assumes "always_fails gb" and "always_fails g"
  shows "\<exists>s'. process_batch gb g tid did batchChunks batchIndex (p, j) = (p, j\<lparr>world := s'\<rparr>)"
proof -
  obtain r s' trace
    where call: "generateBatchEmbeddingsWithRetry gb batchChunks 3 (world j) = (r, s', trace)"
    by (cases "generateBatchEmbeddingsWithRetry gb batchChunks 3 (world j)")
  have "isl (fst (generateBatchEmbeddingsWithRetry gb batchChunks 3 (world j)))"
    unfolding generateBatchEmbeddingsWithRetry_def
    by (rule retry_loop_always_fails [OF assms(1)])
  with call obtain e where r: "r = Inl e" by (cases r) simp_all
  from fallback_loop_always_fails [OF assms(2), of tid did batchChunks batchIndex 0 p
      "j\<lparr>world := s'\<rparr>"]
  obtain s'' where "fallback_loop g tid did batchChunks batchIndex 0 (p, j\<lparr>world := s'\<rparr>)
      = (p, j\<lparr>world := s''\<rparr>)"
    by auto
  with call r
  have "process_batch gb g tid did batchChunks batchIndex (p, j) = (p, j\<lparr>world := s''\<rparr>)"
    by (simp add: process_batch_def)
  then show ?thesis by (rule exI)
qed

lemma batch_loop_always_fails:
  assumes "always_fails gb" and "always_fails g"
  shows "\<exists>s'. batch_loop gb g tid did chunks batchIndex (p, j) = (p, j\<lparr>world := s'\<rparr>)"
proof (induction "length chunks - batchIndex" arbitrary: batchIndex j rule: less_induct)
  case less
  show ?case
  proof (cases "batchIndex < length chunks")
    case False
    then have "batch_loop gb g tid did chunks batchIndex (p, j) = (p, j\<lparr>world := world j\<rparr>)"
      by (simp add: batch_loop.simps)
    then show ?thesis by blast
  next
    case True
    from process_batch_always_fails [OF assms]
    obtain s' where batch: "process_batch gb g tid did
        (take BATCH_SIZE (drop batchIndex chunks)) batchIndex (p, j) = (p, j\<lparr>world := s'\<rparr>)"
      by blast
    have "length chunks - (batchIndex + BATCH_SIZE) < length chunks - batchIndex"
      using True by (simp add: BATCH_SIZE_def)
    from less.hyps [OF this, of "j\<lparr>world := s'\<rparr>"]
    obtain s'' where "batch_loop gb g tid did chunks (batchIndex + BATCH_SIZE)
        (p, j\<lparr>world := s'\<rparr>) = (p, j\<lparr>world := s''\<rparr>)"
      by auto
    with True batch
    have "batch_loop gb g tid did chunks batchIndex (p, j) = (p, j\<lparr>world := s''\<rparr>)"
      by (subst batch_loop.simps) simp
    then show ?thesis by (rule exI)
  qed
qed

text \<open>
  The job after the document was found, in one statement: the two first saves, the batch
  loop from a state that satisfies both invariants, and the final save.
\<close>

lemma process_body_run:
  fixes j0 :: "'s job"
  defines "chunks \<equiv> splitTextIntoChunks (content (doc j0)) 800"
  defines "j2 \<equiv> j0\<lparr>doc := (doc j0)\<lparr>processingStatus := Processing, chunkCount := length chunks\<rparr>,
                    saves := saves j0 @ [(doc j0)\<lparr>processingStatus := Processing\<rparr>,
                       (doc j0)\<lparr>processingStatus := Processing, chunkCount := length chunks\<rparr>]\<rparr>"
  assumes loop: "batch_loop gb g tid did chunks 0 (0, j2) = (p, j3)"
  shows "process_body gb g did tid j0 =
           (if p = 0 then (Some ''Failed to create any embeddings'', j3)
            else (None, save (j3\<lparr>doc := (doc j3)\<lparr>processingStatus := Completed\<rparr>\<rparr>)))"
proof -
  have ne: "length chunks \<noteq> 0"
    unfolding chunks_def using splitTextIntoChunks_not_empty by simp
  have j2: "save ((save (j0\<lparr>doc := (doc j0)\<lparr>processingStatus := Processing\<rparr>\<rparr>))
              \<lparr>doc := (doc (save (j0\<lparr>doc := (doc j0)\<lparr>processingStatus := Processing\<rparr>\<rparr>)))
                  \<lparr>chunkCount := length chunks\<rparr>\<rparr>) = j2"
    by (simp add: save_def j2_def)
  show ?thesis
    unfolding process_body_def Let_def
    using ne loop j2
    by (simp add: chunks_def save_def)
qed

lemma processDocumentAsync_outcome:
  fixes d :: document and store :: "embedding_doc list" and s :: 's
  shows "\<exists>err j p. processDocumentAsync gb g did tid (Some d) store s = Some (err, j)
     \<and> saves j \<noteq> [] \<and> last (saves j) = doc j
     \<and> length (embeddings j) = length store + p
     \<and> (if p = 0
         then processingStatus (doc j) = Failed
              \<and> err = Some (Error ''Failed to create any embeddings'')
              \<and> processingError (doc j) = Some ''Failed to create any embeddings''
         else processingStatus (doc j) = Completed \<and> err = None
              \<and> embeddingCount (doc j) = p)"
proof -
  let ?j0 = "\<lparr>doc = d, saves = [], embeddings = store, world = s\<rparr>"
  let ?chunks = "splitTextIntoChunks (content (doc ?j0)) 800"
  let ?j2 = "?j0\<lparr>doc := (doc ?j0)\<lparr>processingStatus := Processing, chunkCount := length ?chunks\<rparr>,
                 saves := saves ?j0 @ [(doc ?j0)\<lparr>processingStatus := Processing\<rparr>,
                    (doc ?j0)\<lparr>processingStatus := Processing, chunkCount := length ?chunks\<rparr>]\<rparr>"
  obtain p j3 where loop: "batch_loop gb g tid did ?chunks 0 (0, ?j2) = (p, j3)"
    by (cases "batch_loop gb g tid did ?chunks 0 (0, ?j2)")
  have "counted (length store) 0 ?j2" by (simp add: counted_def)
  from batch_loop_counted [OF this loop] have inv: "counted (length store) p j3" .
  note body = process_body_run [OF loop]
  show ?thesis
  proof (cases "p = 0")
    case True
    with body inv show ?thesis
      by (intro exI [of _ "Some (Error ''Failed to create any embeddings'')"]
            exI [of _ "save (j3\<lparr>doc := (doc j3)\<lparr>processingStatus := Failed,
                  processingError := Some ''Failed to create any embeddings''\<rparr>\<rparr>)"]
            exI [of _ p])
         (simp add: processDocumentAsync_def counted_def save_def)
  next
    case False
    with body inv show ?thesis
      by (intro exI [of _ None]
            exI [of _ "save (j3\<lparr>doc := (doc j3)\<lparr>processingStatus := Completed\<rparr>\<rparr>)"]
            exI [of _ p])
         (simp add: processDocumentAsync_def counted_def save_def)
  qed
qed

lemma processDocumentAsync_all_fail:
  fixes d :: document and store :: "embedding_doc list" and s :: 's
  assumes "always_fails gb" and "always_fails g"
  shows "\<exists>j. processDocumentAsync gb g did tid (Some d) store s
            = Some (Some (Error ''Failed to create any embeddings''), j)
     \<and> processingStatus (doc j) = Failed
     \<and> processingError (doc j) = Some ''Failed to create any embeddings''
     \<and> embeddingCount (doc j) = embeddingCount d
     \<and> embeddings j = store"
proof -
  let ?j0 = "\<lparr>doc = d, saves = [], embeddings = store, world = s\<rparr>"
  let ?chunks = "splitTextIntoChunks (content (doc ?j0)) 800"
  let ?j2 = "?j0\<lparr>doc := (doc ?j0)\<lparr>processingStatus := Processing, chunkCount := length ?chunks\<rparr>,
                 saves := saves ?j0 @ [(doc ?j0)\<lparr>processingStatus := Processing\<rparr>,
                    (doc ?j0)\<lparr>processingStatus := Processing, chunkCount := length ?chunks\<rparr>]\<rparr>"
  from batch_loop_always_fails [OF assms, of tid did ?chunks 0 0 ?j2]
  obtain s' where loop: "batch_loop gb g tid did ?chunks 0 (0, ?j2) = (0, ?j2\<lparr>world := s'\<rparr>)"
    by blast
  note body = process_body_run [OF loop]
  show ?thesis
    using body
    by (intro exI [of _ "save ((?j2\<lparr>world := s'\<rparr>)\<lparr>doc := (doc (?j2\<lparr>world := s'\<rparr>))
            \<lparr>processingStatus := Failed,
             processingError := Some ''Failed to create any embeddings''\<rparr>\<rparr>)"])
       (simp add: processDocumentAsync_def save_def)
qed

lemma processDocumentAsync_monotone:
  fixes d :: document and store :: "embedding_doc list" and s :: 's
  assumes "embeddingCount d = 0"
    and "processDocumentAsync gb g did tid (Some d) store s = Some (err, j)"
  shows "sorted (map embeddingCount (d # saves j))"
proof -
  let ?j0 = "\<lparr>doc = d, saves = [], embeddings = store, world = s\<rparr>"
  let ?chunks = "splitTextIntoChunks (content (doc ?j0)) 800"
  let ?j2 = "?j0\<lparr>doc := (doc ?j0)\<lparr>processingStatus := Processing, chunkCount := length ?chunks\<rparr>,
                 saves := saves ?j0 @ [(doc ?j0)\<lparr>processingStatus := Processing\<rparr>,
                    (doc ?j0)\<lparr>processingStatus := Processing, chunkCount := length ?chunks\<rparr>]\<rparr>"
  obtain p j3 where loop: "batch_loop gb g tid did ?chunks 0 (0, ?j2) = (p, j3)"
    by (cases "batch_loop gb g tid did ?chunks 0 (0, ?j2)")
  have "monotone_saves 0 ?j2" using assms(1) by (simp add: monotone_saves_def)
  from batch_loop_monotone_saves [OF this loop] have inv: "monotone_saves p j3" .
  note body = process_body_run [OF loop]
  have final: "\<And>f. embeddingCount (f (doc j3)) = embeddingCount (doc j3) \<Longrightarrow>
      sorted (map embeddingCount (saves j3 @ [f (doc j3)]))"
    using inv by (auto simp: monotone_saves_def sorted_append)
  have "sorted (map embeddingCount (saves j))"
  proof (cases "p = 0")
    case True
    with body assms(2)
    have "saves j = saves j3 @ [(doc j3)\<lparr>processingStatus := Failed,
              processingError := Some ''Failed to create any embeddings''\<rparr>]"
      by (auto simp: processDocumentAsync_def save_def)
    with final [of "\<lambda>x. x\<lparr>processingStatus := Failed,
              processingError := Some ''Failed to create any embeddings''\<rparr>"]
    show ?thesis by simp
  next
    case False
    with body assms(2)
    have "saves j = saves j3 @ [(doc j3)\<lparr>processingStatus := Completed\<rparr>]"
      by (auto simp: processDocumentAsync_def save_def)
    with final [of "\<lambda>x. x\<lparr>processingStatus := Completed\<rparr>"]
    show ?thesis by simp
  qed
  with assms(1) show ?thesis by simp
qed

lemmas job_eval = processDocumentAsync_def process_body_def batch_loop.simps process_batch_def
  fallback_loop.simps generateEmbeddingsWithRetry_def generateBatchEmbeddingsWithRetry_def
  retry_loop.simps splitTextIntoChunks_def split_ws.simps isSpace_def save_def
  update_progress_def embedding_for_def new_document_def BATCH_SIZE_def Let_def

text \<open>
  Claim C1. For every document that is found, whatever the provider does, the job ends
  and its last save leaves the document either completed or failed. It is completed only
  when at least one embedding was stored: the rethrown error is absent, the embedding
  count is positive and equals the number of embeddings the job added. Otherwise it is
  failed, nothing was added, and the message of the rethrown error is recorded in
  \<open>processingError\<close>. In particular, when every batch call and every single call of the
  provider fails, the job ends failed with the error "Failed to create any embeddings".
\<close>

theorem processDocumentAsync_completed_only_with_embeddings:
  fixes d :: document and store :: "embedding_doc list" and s :: 's
  shows "\<exists>err j. processDocumentAsync gb g did tid (Some d) store s = Some (err, j)
     \<and> last (saves j) = doc j
     \<and> (processingStatus (doc j) = Completed \<and> err = None
          \<and> 0 < embeddingCount (doc j)
          \<and> length (embeddings j) = length store + embeddingCount (doc j)
        \<or> processingStatus (doc j) = Failed
          \<and> length (embeddings j) = length store
          \<and> (\<exists>msg. err = Some (Error msg) \<and> processingError (doc j) = Some msg))
     \<and> (always_fails gb \<and> always_fails g \<longrightarrow>
          processingStatus (doc j) = Failed
          \<and> processingError (doc j) = Some ''Failed to create any embeddings''
          \<and> embeddings j = store)"
proof -
  from processDocumentAsync_outcome [of gb g did tid d store s]
  obtain err j p where run: "processDocumentAsync gb g did tid (Some d) store s = Some (err, j)"
    and saved: "last (saves j) = doc j"
    and stored: "length (embeddings j) = length store + p"
    and outcome: "if p = 0
         then processingStatus (doc j) = Failed
              \<and> err = Some (Error ''Failed to create any embeddings'')
              \<and> processingError (doc j) = Some ''Failed to create any embeddings''
         else processingStatus (doc j) = Completed \<and> err = None
              \<and> embeddingCount (doc j) = p"
    by blast
  have terminal: "processingStatus (doc j) = Completed \<and> err = None
          \<and> 0 < embeddingCount (doc j)
          \<and> length (embeddings j) = length store + embeddingCount (doc j)
        \<or> processingStatus (doc j) = Failed
          \<and> length (embeddings j) = length store
          \<and> (\<exists>msg. err = Some (Error msg) \<and> processingError (doc j) = Some msg)"
    using stored outcome by (cases "p = 0") simp_all
  have down: "processingStatus (doc j) = Failed
          \<and> processingError (doc j) = Some ''Failed to create any embeddings''
          \<and> embeddings j = store"
    if "always_fails gb \<and> always_fails g"
  proof -
    from that processDocumentAsync_all_fail [of gb g did tid d store s]
    obtain j' where "processDocumentAsync gb g did tid (Some d) store s
            = Some (Some (Error ''Failed to create any embeddings''), j')"
      and "processingStatus (doc j') = Failed"
      and "processingError (doc j') = Some ''Failed to create any embeddings''"
      and "embeddings j' = store"
      by blast
    with run show ?thesis by simp
  qed
  from run saved terminal down show ?thesis by blast
qed

theorem processDocumentAsync_completed_only_with_embeddings_witness:
  "always_fails (provider_down :: (string list, vector list, unit) provider)
   \<and> always_fails (provider_down :: (string, vector, unit) provider)
   \<and> map_option (\<lambda>(err, j). (err, processingStatus (doc j), processingError (doc j),
                       embeddingCount (doc j), length (embeddings j)))
       (processDocumentAsync provider_down provider_down 1 7
          (Some (new_document ''refund policy'')) [] ())
     = Some (Some (Error ''Failed to create any embeddings''), Failed,
             Some ''Failed to create any embeddings'', 0, 0)
   \<and> map_option (\<lambda>(err, j). (err, processingStatus (doc j), processingError (doc j),
                       embeddingCount (doc j), length (embeddings j)))
       (processDocumentAsync provider_down provider_up 1 7
          (Some (new_document ''refund policy'')) [] ())
     = Some (None, Completed, None, 1, 1)"
proof -
  have down: "always_fails (provider_down :: (string list, vector list, unit) provider)"
    "always_fails (provider_down :: (string, vector, unit) provider)"
    by (simp_all add: always_fails_def provider_down_def)
  have failed: "map_option (\<lambda>(err, j). (err, processingStatus (doc j), processingError (doc j),
                       embeddingCount (doc j), length (embeddings j)))
       (processDocumentAsync provider_down provider_down 1 7
          (Some (new_document ''refund policy'')) [] ())
     = Some (Some (Error ''Failed to create any embeddings''), Failed,
             Some ''Failed to create any embeddings'', 0, 0)"
    by (simp add: job_eval provider_down_def)
  have completed: "map_option (\<lambda>(err, j). (err, processingStatus (doc j),
                       processingError (doc j), embeddingCount (doc j), length (embeddings j)))
       (processDocumentAsync provider_down provider_up 1 7
          (Some (new_document ''refund policy'')) [] ())
     = Some (None, Completed, None, 1, 1)"
    by (simp add: job_eval provider_down_def provider_up_def)
  show ?thesis
    using processDocumentAsync_completed_only_with_embeddings
      [of provider_down provider_down 1 7 "new_document ''refund policy''" "[]" "()"]
      down failed completed
    by simp
qed

text \<open>
  The older copy of the controller is different: its job marks the document completed
  even when no chunk could be embedded.
\<close>

lemma processDocumentAsync_legacy_completes_without_embeddings:
  "map_option (\<lambda>j. (processingStatus (doc j), embeddingCount (doc j), length (embeddings j)))
     (processDocumentAsync_legacy provider_down 1 7 (Some (new_document ''refund policy'')) [] ())
   = Some (Completed, 0, 0)"
  by (simp add: processDocumentAsync_legacy_def job_eval provider_down_def)

text \<open>
  Claim C7. For a document whose embedding count is 0 when the job starts (the schema
  default, which is how an upload creates it), the embedding counts that successive status
  polls can read never decrease: of two states of the document in the order they were
  written, the later has the embedding count at least as large. This holds across the whole
  history, so in particular among the states with status \<^verbatim>\<open>"processing"\<close>.
\<close>

theorem embeddingCount_never_decreases:
  fixes d :: document and store :: "embedding_doc list" and s :: 's
  shows "embeddingCount d = 0 \<Longrightarrow>
     \<exists>err j. processDocumentAsync gb g did tid (Some d) store s = Some (err, j)
       \<and> (\<forall>i k. i \<le> k \<and> k < length (poll_history d j) \<longrightarrow>
             statusEmbeddingCount (poll_history d j ! i)
               \<le> statusEmbeddingCount (poll_history d j ! k))
       \<and> sorted (map statusEmbeddingCount
                   (filter (\<lambda>u. status u = Processing) (poll_history d j)))"
proof -
  assume zero: "embeddingCount d = 0"
  from processDocumentAsync_outcome [of gb g did tid d store s]
  obtain err j where run: "processDocumentAsync gb g did tid (Some d) store s = Some (err, j)"
    by blast
  have counts: "map statusEmbeddingCount (poll_history d j) = map embeddingCount (d # saves j)"
    by (simp add: poll_history_def getUploadStatus_def comp_def)
  from processDocumentAsync_monotone [OF zero run]
  have all: "sorted (map statusEmbeddingCount (poll_history d j))"
    by (simp only: counts)
  have "statusEmbeddingCount (poll_history d j ! i) \<le> statusEmbeddingCount (poll_history d j ! k)"
    if "i \<le> k \<and> k < length (poll_history d j)" for i k
    using sorted_nth_mono [OF all, of i k] that by simp
  moreover have "sorted (map statusEmbeddingCount
                   (filter (\<lambda>u. status u = Processing) (poll_history d j)))"
    using all by (rule sorted_filter)
  ultimately show ?thesis using run by blast
qed

theorem embeddingCount_never_decreases_witness:
  "embeddingCount (new_document ''refund policy'') = 0
   \<and> map_option (\<lambda>(err, j). map (\<lambda>u. (status u, statusEmbeddingCount u))
                                (poll_history (new_document ''refund policy'') j))
       (processDocumentAsync provider_down provider_up 1 7
          (Some (new_document ''refund policy'')) [] ())
     = Some [(Pending, 0), (Processing, 0), (Processing, 0), (Processing, 1), (Completed, 1)]"
proof -
  have zero: "embeddingCount (new_document ''refund policy'') = 0"
    by (simp add: new_document_def)
  have history: "map_option (\<lambda>(err, j). map (\<lambda>u. (status u, statusEmbeddingCount u))
                                (poll_history (new_document ''refund policy'') j))
       (processDocumentAsync provider_down provider_up 1 7
          (Some (new_document ''refund policy'')) [] ())
     = Some [(Pending, 0), (Processing, 0), (Processing, 0), (Processing, 1), (Completed, 1)]"
    by (simp add: job_eval poll_history_def getUploadStatus_def provider_down_def
        provider_up_def)
  show ?thesis
    using embeddingCount_never_decreases [OF zero, of provider_down provider_up 1 7 "[]" "()"]
      zero history
    by simp
qed

section \<open>Properties of the similarity computation and the search\<close>

lemma cosine_loop_sums:
  "n \<le> length a \<Longrightarrow> n \<le> length b \<Longrightarrow>
   fold (\<lambda>i (dotProduct, norm1, norm2).
             (dotProduct + a ! i * b ! i, norm1 + a ! i * a ! i, norm2 + b ! i * b ! i))
       [0..<n] (0, 0, 0)
   = (\<Sum>i<n. a ! i * b ! i, \<Sum>i<n. a ! i * a ! i, \<Sum>i<n. b ! i * b ! i)"
  by (induction n) simp_all

lemma sum_list_map2_nth:
  "length a = length b \<Longrightarrow> sum_list (map2 (*) a b) = (\<Sum>i<length a. a ! i * (b ! i :: real))"
  by (simp add: sum_list_sum_nth atLeast0LessThan)

lemma sum_list_squares_nth:
  "sum_list (map (\<lambda>x. x * x) a) = (\<Sum>i<length a. a ! i * (a ! i :: real))"
  by (simp add: sum_list_sum_nth atLeast0LessThan)

lemma cosine_loop_eq:
  "length a = length b \<Longrightarrow>
   cosine_loop a b =
     (dot_product a b, sum_list (map (\<lambda>x. x * x) a), sum_list (map (\<lambda>x. x * x) b))"
  unfolding cosine_loop_def dot_product_def
  using cosine_loop_sums [of "length a" a b]
  by (simp add: sum_list_map2_nth sum_list_squares_nth)

lemma cosineSimilarity_formula:
  assumes "length a = getEmbeddingDimension" "length b = getEmbeddingDimension"
  shows "cosineSimilarity a b =
     Inr (if euclidean_norm a = 0 \<or> euclidean_norm b = 0 then 0
          else dot_product a b / (euclidean_norm a * euclidean_norm b))"
  using assms
  by (simp add: cosineSimilarity_def validateEmbedding_def cosine_loop_eq euclidean_norm_def
      Let_def)

lemma cosineSimilarity_mismatch:
  "length a \<noteq> getEmbeddingDimension \<or> length b \<noteq> getEmbeddingDimension \<Longrightarrow>
     cosineSimilarity a b = Inl (Error ''Invalid embeddings provided'')"
  by (auto simp: cosineSimilarity_def validateEmbedding_def)

text \<open>Vectors along the first axis: their similarity is the product of the signs.\<close>

lemma length_axis_vector: "length (axis_vector c) = getEmbeddingDimension"
  by (simp add: axis_vector_def getEmbeddingDimension_def)

lemma dot_product_axis: "dot_product (axis_vector a) (axis_vector b) = a * b"
  by (simp add: dot_product_def axis_vector_def sum_list_replicate)

lemma euclidean_norm_axis: "euclidean_norm (axis_vector c) = \<bar>c\<bar>"
  by (simp add: euclidean_norm_def axis_vector_def sum_list_replicate)

lemma cosineSimilarity_axis:
  "cosineSimilarity (axis_vector a) (axis_vector b) = Inr (sgn a * sgn b)"
proof -
  note len = length_axis_vector [of a] length_axis_vector [of b]
  show ?thesis
  proof (cases "a = 0 \<or> b = 0")
    case True
    then show ?thesis
      by (auto simp: cosineSimilarity_formula [OF len] euclidean_norm_axis)
  next
    case False
    have "a * b / (\<bar>a\<bar> * \<bar>b\<bar>) = (a / \<bar>a\<bar>) * (b / \<bar>b\<bar>)"
      by simp
    also have "\<dots> = sgn a * sgn b"
      using False by (simp add: sgn_real_def abs_if)
    finally show ?thesis
      using False
      by (simp add: cosineSimilarity_formula [OF len] euclidean_norm_axis dot_product_axis)
  qed
qed

text \<open>Binary64 rounding: zero and the powers of two are exact, small values underflow to 0,
  large ones overflow to an infinity.\<close>

lemma round_half_even_of_int [simp]: "round_half_even (of_int k) = k"
  by (simp add: round_half_even_def)

lemma round64_0 [simp]: "round64 0 = Num 0"
  by (simp add: round64_def)

lemma quantum_pow2:
  assumes "\<bar>x\<bar> = 2 ^ n"
  shows "quantum x = 2 powr (real n - 52)"
proof -
  have "log 2 \<bar>x\<bar> = real n" unfolding assms by (simp add: log_nat_power)
  then have "\<lfloor>log 2 \<bar>x\<bar>\<rfloor> = int n" by simp
  then show ?thesis by (simp add: quantum_def)
qed

lemma round64_pow2_value:
  assumes "\<bar>x\<bar> = 2 ^ n"
  shows "of_int (round_half_even (x / quantum x)) * quantum x = x"
proof -
  have q: "quantum x = 2 powr (real n - 52)" by (rule quantum_pow2 [OF assms(1)])
  have x0: "x \<noteq> 0" using assms(1) by auto
  have "\<bar>x\<bar> = 2 powr real n" unfolding assms(1) by (simp add: powr_realpow)
  then have "\<bar>x\<bar> / quantum x = 2 powr 52" unfolding q by (simp add: powr_diff)
  then have ratio: "\<bar>x\<bar> / quantum x = of_int (2 ^ 52)" by simp
  have qpos: "quantum x > 0" unfolding q by simp
  have sx: "x = sgn x * \<bar>x\<bar>" by (simp add: sgn_real_def)
  have "x / quantum x = sgn x * (\<bar>x\<bar> / quantum x)" by (subst sx) simp
  also have "\<dots> = of_int (if x < 0 then - (2 ^ 52) else 2 ^ 52)"
    using x0 unfolding ratio by (simp add: sgn_real_def)
  finally show ?thesis
    using qpos by (simp only: round_half_even_of_int) (simp add: field_simps)
qed

lemma round64_pow2:
  assumes "\<bar>x\<bar> = 2 ^ n" and "n < 1024"
  shows "round64 x = Num x"
proof -
  have x0: "x \<noteq> 0" using assms(1) by auto
  have "(2::real) ^ n < 2 ^ 1024"
    by (rule power_strict_increasing [OF assms(2)]) simp
  then have "\<bar>x\<bar> < 2 ^ 1024" by (simp only: assms(1))
  then have "\<not> x \<ge> 2 ^ 1024" "\<not> x \<le> - (2 ^ 1024)"
    by (auto simp only: abs_if split: if_splits)
  with x0 show ?thesis
    by (simp only: round64_def Let_def if_False round64_pow2_value [OF assms(1)])
qed





text \<open>The loop computes the three sums of the formula, from the left.\<close>

lemma cosine_loop_binary64_sums:
  "n \<le> length a \<Longrightarrow> n \<le> length b \<Longrightarrow>
   fold (\<lambda>i (dotProduct, norm1, norm2).
             (js_add dotProduct (js_mul (a ! i) (b ! i)),
              js_add norm1 (js_mul (a ! i) (a ! i)),
              js_add norm2 (js_mul (b ! i) (b ! i))))
       [0..<n] (Num 0, Num 0, Num 0)
   = (js_sum (map2 js_mul (take n a) (take n b)),
      js_sum (map (\<lambda>x. js_mul x x) (take n a)),
      js_sum (map (\<lambda>x. js_mul x x) (take n b)))"
proof (induction n)
  case 0
  then show ?case by (simp add: js_sum_def)
next
  case (Suc n)
  then have a: "take (Suc n) a = take n a @ [a ! n]"
    and b: "take (Suc n) b = take n b @ [b ! n]"
    by (simp_all add: take_Suc_conv_app_nth)
  from Suc show ?case unfolding a b by (simp add: js_sum_def)
qed

lemma cosine_loop_binary64_eq:
  "length a = length b \<Longrightarrow>
   cosine_loop_binary64 a b =
     (dot_binary64 a b, js_sum (map (\<lambda>x. js_mul x x) a), js_sum (map (\<lambda>x. js_mul x x) b))"
  unfolding cosine_loop_binary64_def dot_binary64_def
  using cosine_loop_binary64_sums [of "length a" a b] by simp

lemma cosineSimilarity_binary64_value:
  assumes "validateEmbedding_binary64 a" "validateEmbedding_binary64 b"
  shows "cosineSimilarity_binary64 a b =
     Inr (if norm_binary64 a = Num 0 \<or> norm_binary64 b = Num 0 then Num 0
          else js_div (dot_binary64 a b) (js_mul (norm_binary64 a) (norm_binary64 b)))"
proof -
  from assms have "length a = length b" by (simp add: validateEmbedding_binary64_def)
  from cosine_loop_binary64_eq [OF this] assms show ?thesis
    by (simp add: cosineSimilarity_binary64_def norm_binary64_def Let_def)
qed

lemma js_sum_zeros:
  "\<forall>v \<in> set xs. v = Num 0 \<Longrightarrow> js_sum (map (\<lambda>x. js_mul x x) xs) = Num 0"
  unfolding js_sum_def
  by (induction xs rule: rev_induct) simp_all

lemma norm_binary64_zeros:
  "\<forall>v \<in> set xs. v = Num 0 \<Longrightarrow> norm_binary64 xs = Num 0"
  by (simp add: norm_binary64_def js_sum_zeros)


lemma validateEmbedding_binary64_Num:
  "length v = getEmbeddingDimension \<Longrightarrow> validateEmbedding_binary64 (map Num v)"
  by (auto simp: validateEmbedding_binary64_def)

lemma foldl_js_add_zeros:
  "round64 p = Num p \<Longrightarrow> foldl js_add (Num p) (replicate n (Num 0)) = Num p"
  by (induction n) simp_all

lemma js_sum_axis:
  "round64 p = Num p \<Longrightarrow> js_sum (Num p # replicate n (Num 0)) = Num p"
  by (simp add: js_sum_def foldl_js_add_zeros)

lemma dot_binary64_axis:
  "round64 (a * b) = Num (a * b) \<Longrightarrow>
     dot_binary64 (map Num (axis_vector a)) (map Num (axis_vector b)) = Num (a * b)"
  by (simp add: dot_binary64_def axis_vector_def js_sum_axis)

lemma norm_binary64_axis:
  "round64 (a * a) = Num (a * a) \<Longrightarrow> round64 \<bar>a\<bar> = Num \<bar>a\<bar> \<Longrightarrow>
     norm_binary64 (map Num (axis_vector a)) = Num \<bar>a\<bar>"
  by (simp add: norm_binary64_def axis_vector_def js_sum_axis)

lemma round64_exact_values:
  "round64 1 = Num 1" "round64 2 = Num 2" "round64 4 = Num 4"
  "round64 (- 1) = Num (- 1)" "round64 (- 2) = Num (- 2)"
  using round64_pow2 [of 1 0] round64_pow2 [of 2 1] round64_pow2 [of 4 2]
    round64_pow2 [of "- 1" 0] round64_pow2 [of "- 2" 1]
  by simp_all

text \<open>
  The scores of the stored embeddings of the concrete searches, against the query along
  the first axis, as binary64 arithmetic computes them: the numbers that the search on
  real numbers gives them.
\<close>

lemma cosineSimilarity_binary64_axis_1:
  "cosineSimilarity_binary64 (map Num (axis_vector 1)) (map Num (axis_vector (- 2))) = Inr (Num (- 1))"
  "cosineSimilarity_binary64 (map Num (axis_vector 1)) (map Num (axis_vector 0)) = Inr (Num 0)"
  "cosineSimilarity_binary64 (map Num (axis_vector 1)) (map Num (axis_vector 2)) = Inr (Num 1)"
  "cosineSimilarity_binary64 (map Num (axis_vector 1)) (map Num (axis_vector 1)) = Inr (Num 1)"
proof -
  have valid: "validateEmbedding_binary64 (map Num (axis_vector c))" for c
    by (rule validateEmbedding_binary64_Num) (rule length_axis_vector)
  note computed = cosineSimilarity_binary64_value [OF valid valid]
  have norms: "norm_binary64 (map Num (axis_vector 1)) = Num 1"
    "norm_binary64 (map Num (axis_vector 2)) = Num 2"
    "norm_binary64 (map Num (axis_vector (- 2))) = Num 2"
    using norm_binary64_axis [of 1] norm_binary64_axis [of 2] norm_binary64_axis [of "- 2"]
    by (simp_all add: round64_exact_values)
  have dots: "dot_binary64 (map Num (axis_vector 1)) (map Num (axis_vector 1)) = Num 1"
    "dot_binary64 (map Num (axis_vector 1)) (map Num (axis_vector 2)) = Num 2"
    "dot_binary64 (map Num (axis_vector 1)) (map Num (axis_vector (- 2))) = Num (- 2)"
    using dot_binary64_axis [of 1 1] dot_binary64_axis [of 1 2] dot_binary64_axis [of 1 "- 2"]
    by (simp_all add: round64_exact_values)
  have zero: "norm_binary64 (map Num (axis_vector 0)) = Num 0"
    by (rule norm_binary64_zeros) (simp add: axis_vector_def)
  show "cosineSimilarity_binary64 (map Num (axis_vector 1)) (map Num (axis_vector (- 2))) = Inr (Num (- 1))"
    "cosineSimilarity_binary64 (map Num (axis_vector 1)) (map Num (axis_vector 0)) = Inr (Num 0)"
    "cosineSimilarity_binary64 (map Num (axis_vector 1)) (map Num (axis_vector 2)) = Inr (Num 1)"
    "cosineSimilarity_binary64 (map Num (axis_vector 1)) (map Num (axis_vector 1)) = Inr (Num 1)"
    by (simp_all add: computed norms dots zero round64_exact_values)
qed











text \<open>The comparison \<^verbatim>\<open>b.similarity - a.similarity\<close> sorts by descending similarity.\<close>

lemma insert_by_descending:
  "insert_by (\<lambda>a b. similarity b - similarity a) x ys = insort_key (\<lambda>m. - similarity m) x ys"
  by (induction ys) simp_all

lemma js_sort_descending:
  "js_sort (\<lambda>a b. similarity b - similarity a) xs = sort_key (\<lambda>m. - similarity m) xs"
  by (induction xs) (simp_all add: js_sort_def sort_key_def insert_by_descending)

lemma js_sort_set [simp]:
  "set (js_sort (\<lambda>a b. similarity b - similarity a) xs) = set xs"
  by (simp add: js_sort_descending)

lemma js_sort_length [simp]:
  "length (js_sort (\<lambda>a b. similarity b - similarity a) xs) = length xs"
  by (simp add: js_sort_descending)

lemma js_sort_sorted:
  "sorted_wrt (\<lambda>a b. similarity a \<ge> similarity b)
     (js_sort (\<lambda>a b. similarity b - similarity a) xs)"
proof -
  have "sorted (map (\<lambda>m. - similarity m) (sort_key (\<lambda>m. - similarity m) xs))"
    by (rule sorted_sort_key)
  then show ?thesis by (simp add: js_sort_descending sorted_map)
qed

lemma js_sort_stable:
  "filter (\<lambda>m. similarity m = k) (js_sort (\<lambda>a b. similarity b - similarity a) xs)
     = filter (\<lambda>m. similarity m = k) xs"
proof -
  have eq: "(\<lambda>m. similarity m = k) = (\<lambda>m. - similarity m = - k)" by auto
  show ?thesis
    unfolding js_sort_descending eq by (rule sort_key_stable)
qed

lemma sorted_wrt_take_desc:
  "sorted_wrt P xs \<Longrightarrow> sorted_wrt P (take n xs)"
proof (induction xs arbitrary: n)
  case Nil
  then show ?case by simp
next
  case (Cons x xs)
  then show ?case by (cases n) (auto dest: in_set_takeD)
qed

lemma findSimilarDocuments_eq:
  "findSimilarDocuments store tid q options =
     Inr (take (limit options)
            (js_sort (\<lambda>a b. similarity b - similarity a) (filteredResults store tid q options)))"
  by (simp add: findSimilarDocuments_def filteredResults_def js_sort_def)

text \<open>
  Claim C5. A search returns the first \<open>limit\<close> entries of a ranking of all candidates
  that pass the threshold: the ranking holds exactly the scored candidates with
  similarity at least \<open>minSimilarity\<close>, in descending order of similarity, and entries of
  equal similarity are in the order of the candidates (the insertion order of the
  store). So the result has at most \<open>limit\<close> entries, each a scored candidate with
  similarity at least \<open>minSimilarity\<close>, in descending order.
\<close>

theorem findSimilarDocuments_filters_ranks_truncates:
  "\<exists>ms ranking.
     findSimilarDocuments store tid q options = Inr ms
     \<and> ms = take (limit options) ranking
     \<and> set ranking = set (filteredResults store tid q options)
     \<and> length ranking = length (filteredResults store tid q options)
     \<and> sorted_wrt (\<lambda>a b. similarity a \<ge> similarity b) ranking
     \<and> (\<forall>k. filter (\<lambda>m. similarity m = k) ranking
             = filter (\<lambda>m. similarity m = k) (filteredResults store tid q options))
     \<and> (\<forall>m\<in>set ms. similarity m \<ge> minSimilarity options
           \<and> m \<in> set (map (score_embedding q) (find_embeddings store tid options)))
     \<and> sorted_wrt (\<lambda>a b. similarity a \<ge> similarity b) ms
     \<and> length ms \<le> limit options"
proof -
  let ?ranking = "js_sort (\<lambda>a b. similarity b - similarity a)
                    (filteredResults store tid q options)"
  let ?ms = "take (limit options) ?ranking"
  have "\<forall>m\<in>set ?ms. similarity m \<ge> minSimilarity options
           \<and> m \<in> set (map (score_embedding q) (find_embeddings store tid options))"
  proof
    fix m assume "m \<in> set ?ms"
    then have "m \<in> set (filteredResults store tid q options)"
      by (auto dest: in_set_takeD)
    then show "similarity m \<ge> minSimilarity options
           \<and> m \<in> set (map (score_embedding q) (find_embeddings store tid options))"
      by (simp add: filteredResults_def)
  qed
  moreover have "sorted_wrt (\<lambda>a b. similarity a \<ge> similarity b) ?ms"
    by (rule sorted_wrt_take_desc) (rule js_sort_sorted)
  ultimately show ?thesis
    using js_sort_sorted [of "filteredResults store tid q options"]
    by - (rule exI [of _ ?ms], rule exI [of _ ?ranking],
          simp add: findSimilarDocuments_eq js_sort_stable)
qed

lemma score_axis:
  "score_embedding (axis_vector a) (stored i (axis_vector b))
     = \<lparr>matched = stored i (axis_vector b), similarity = sgn a * sgn b\<rparr>"
  by (simp add: score_embedding_def stored_def cosineSimilarity_axis)

lemma score_short:
  "score_embedding q (stored i [1, 0]) = \<lparr>matched = stored i [1, 0], similarity = 0\<rparr>"
  by (simp add: score_embedding_def stored_def cosineSimilarity_def validateEmbedding_def
      getEmbeddingDimension_def)

lemma demo_store_found:
  "find_embeddings demo_store (Suc 0)
     \<lparr>limit = n, minSimilarity = x, categoryFilter = None, excludeDocumentIds = []\<rparr>
   = demo_store"
  by (simp add: find_embeddings_def demo_store_def stored_def)

lemma demo_store_scored:
  "map (score_embedding (axis_vector 1)) demo_store =
     [\<lparr>matched = stored 0 (axis_vector (- 2)), similarity = - 1\<rparr>,
      \<lparr>matched = stored 1 (axis_vector 0), similarity = 0\<rparr>,
      \<lparr>matched = stored 2 (axis_vector 2), similarity = 1\<rparr>,
      \<lparr>matched = stored 3 [1, 0], similarity = 0\<rparr>,
      \<lparr>matched = stored 4 (axis_vector 1), similarity = 1\<rparr>]"
  by (simp add: demo_store_def score_axis score_short)

theorem findSimilarDocuments_filters_ranks_truncates_witness:
  "findSimilarDocuments demo_store 1 (axis_vector 1)
     \<lparr>limit = 3, minSimilarity = 0, categoryFilter = None, excludeDocumentIds = []\<rparr>
   = Inr [\<lparr>matched = stored 2 (axis_vector 2), similarity = 1\<rparr>,
          \<lparr>matched = stored 4 (axis_vector 1), similarity = 1\<rparr>,
          \<lparr>matched = stored 1 (axis_vector 0), similarity = 0\<rparr>]"
proof -
  have run: "findSimilarDocuments demo_store 1 (axis_vector 1)
     \<lparr>limit = 3, minSimilarity = 0, categoryFilter = None, excludeDocumentIds = []\<rparr>
   = Inr [\<lparr>matched = stored 2 (axis_vector 2), similarity = 1\<rparr>,
          \<lparr>matched = stored 4 (axis_vector 1), similarity = 1\<rparr>,
          \<lparr>matched = stored 1 (axis_vector 0), similarity = 0\<rparr>]"
    by (simp add: findSimilarDocuments_eq filteredResults_def demo_store_found
        demo_store_scored js_sort_def)
  show ?thesis
    using findSimilarDocuments_filters_ranks_truncates [of demo_store 1 "axis_vector 1"
      "\<lparr>limit = 3, minSimilarity = 0, categoryFilter = None, excludeDocumentIds = []\<rparr>"]
    by - (rule run)
qed

text \<open>
  Claim C3, as the code has it. \<^verbatim>\<open>cosineSimilarity\<close> throws "Invalid embeddings provided"
  when either vector has a length other than 1536. The search catches that error for each
  candidate and gives the candidate the similarity 0: the search itself returns normally,
  and an entry of its result whose vector has the wrong length has similarity 0, which
  can only be when \<open>minSimilarity\<close> is at most 0.
\<close>

theorem dimension_mismatch_caught_and_scored_zero:
  "(length v \<noteq> getEmbeddingDimension \<longrightarrow>
       cosineSimilarity q v = Inl (Error ''Invalid embeddings provided'')
       \<and> cosineSimilarity v q = Inl (Error ''Invalid embeddings provided''))
   \<and> (length (embedding e) \<noteq> getEmbeddingDimension \<longrightarrow>
       score_embedding q e = \<lparr>matched = e, similarity = 0\<rparr>)
   \<and> (\<exists>ms. findSimilarDocuments store tid q options = Inr ms
        \<and> (\<forall>m\<in>set ms. length (embedding (matched m)) \<noteq> getEmbeddingDimension \<longrightarrow>
              similarity m = 0 \<and> minSimilarity options \<le> 0))"
proof (intro conjI impI)
  assume "length v \<noteq> getEmbeddingDimension"
  then show "cosineSimilarity q v = Inl (Error ''Invalid embeddings provided'')"
    and "cosineSimilarity v q = Inl (Error ''Invalid embeddings provided'')"
    by (simp_all add: cosineSimilarity_def validateEmbedding_def)
next
  assume "length (embedding e) \<noteq> getEmbeddingDimension"
  then show "score_embedding q e = \<lparr>matched = e, similarity = 0\<rparr>"
    by (simp add: score_embedding_def cosineSimilarity_def validateEmbedding_def)
next
  have score: "similarity (score_embedding q x) = 0"
    if "length (embedding x) \<noteq> getEmbeddingDimension" for x
    using that by (simp add: score_embedding_def cosineSimilarity_def validateEmbedding_def)
  have matched: "matched (score_embedding q x) = x" for x
    by (cases "cosineSimilarity q (embedding x)") (simp_all add: score_embedding_def)
  let ?ms = "take (limit options) (js_sort (\<lambda>a b. similarity b - similarity a)
               (filteredResults store tid q options))"
  have zero: "similarity m = 0 \<and> minSimilarity options \<le> 0"
    if m: "m \<in> set ?ms" and bad: "length (embedding (matched m)) \<noteq> getEmbeddingDimension"
    for m
  proof -
    from m have "m \<in> set (js_sort (\<lambda>a b. similarity b - similarity a)
               (filteredResults store tid q options))"
      by (rule in_set_takeD)
    then have "m \<in> set (filteredResults store tid q options)"
      by (simp only: js_sort_set)
    then obtain x where x: "m = score_embedding q x"
      and ok: "minSimilarity options \<le> similarity m"
      unfolding filteredResults_def by auto
    from bad x matched [of x] have "length (embedding x) \<noteq> getEmbeddingDimension"
      by simp
    from score [OF this] x have "similarity m = 0" by simp
    with ok show ?thesis by simp
  qed
  have "findSimilarDocuments store tid q options = Inr ?ms"
    by (rule findSimilarDocuments_eq)
  with zero show "\<exists>ms. findSimilarDocuments store tid q options = Inr ms
        \<and> (\<forall>m\<in>set ms. length (embedding (matched m)) \<noteq> getEmbeddingDimension \<longrightarrow>
              similarity m = 0 \<and> minSimilarity options \<le> 0)"
    by blast
qed

theorem dimension_mismatch_caught_and_scored_zero_witness:
  "length [1, 0 :: real] \<noteq> getEmbeddingDimension
   \<and> length (embedding (stored 3 [1, 0])) \<noteq> getEmbeddingDimension
   \<and> cosineSimilarity (axis_vector 1) [1, 0] = Inl (Error ''Invalid embeddings provided'')
   \<and> score_embedding (axis_vector 1) (stored 3 [1, 0])
       = \<lparr>matched = stored 3 [1, 0], similarity = 0\<rparr>
   \<and> findSimilarDocuments demo_store 1 (axis_vector 1)
       \<lparr>limit = 5, minSimilarity = 0, categoryFilter = None, excludeDocumentIds = []\<rparr>
     = Inr [\<lparr>matched = stored 2 (axis_vector 2), similarity = 1\<rparr>,
            \<lparr>matched = stored 4 (axis_vector 1), similarity = 1\<rparr>,
            \<lparr>matched = stored 1 (axis_vector 0), similarity = 0\<rparr>,
            \<lparr>matched = stored 3 [1, 0], similarity = 0\<rparr>]"
proof -
  have short: "length [1, 0 :: real] \<noteq> getEmbeddingDimension"
    and short_stored: "length (embedding (stored 3 [1, 0])) \<noteq> getEmbeddingDimension"
    by (simp_all add: getEmbeddingDimension_def stored_def)
  have run: "findSimilarDocuments demo_store 1 (axis_vector 1)
       \<lparr>limit = 5, minSimilarity = 0, categoryFilter = None, excludeDocumentIds = []\<rparr>
     = Inr [\<lparr>matched = stored 2 (axis_vector 2), similarity = 1\<rparr>,
            \<lparr>matched = stored 4 (axis_vector 1), similarity = 1\<rparr>,
            \<lparr>matched = stored 1 (axis_vector 0), similarity = 0\<rparr>,
            \<lparr>matched = stored 3 [1, 0], similarity = 0\<rparr>]"
    by (simp add: findSimilarDocuments_eq filteredResults_def demo_store_found
        demo_store_scored js_sort_def)
  from dimension_mismatch_caught_and_scored_zero [of "[1, 0]" "axis_vector 1"
        "stored 3 [1, 0]" demo_store 1
        "\<lparr>limit = 5, minSimilarity = 0, categoryFilter = None, excludeDocumentIds = []\<rparr>"]
  have thrown: "cosineSimilarity (axis_vector 1) [1, 0]
                  = Inl (Error ''Invalid embeddings provided'')"
    and scored: "score_embedding (axis_vector 1) (stored 3 [1, 0])
                  = \<lparr>matched = stored 3 [1, 0], similarity = 0\<rparr>"
    using short short_stored by blast+
  from short short_stored thrown scored run show ?thesis by (intro conjI)
qed

text \<open>
  Claim C3 as stated fails: a store whose only embedding has a vector of length 2 is
  searched without any error, and the embedding is returned with similarity 0.
\<close>

theorem dimension_mismatch_not_propagated:
  "findSimilarDocuments [stored 0 [1, 0]] 1 (axis_vector 1)
     \<lparr>limit = 5, minSimilarity = 0, categoryFilter = None, excludeDocumentIds = []\<rparr>
   = Inr [\<lparr>matched = stored 0 [1, 0], similarity = 0\<rparr>]"
  by (simp add: findSimilarDocuments_eq filteredResults_def find_embeddings_def score_short
      js_sort_def) (simp add: stored_def)

section \<open>Properties of the grounding engine\<close>

lemma trim_blank: "trim [] = []"
  by (simp add: trim_def)

lemma context_of_no_matches: "context_of [] = []"
  by (simp add: context_of_def)

lemma generateChatResponse_blank_context:
  assumes "context = [] \<or> length (trim context) = 0"
  shows "generateChatResponse analyse userMessage context =
     Inr (if detectMessageType userMessage \<in> {''greeting'', ''thanks'', ''goodbye''}
          then \<lparr>message = getDefaultAnswer (detectMessageType userMessage),
                confidence = 8 / 10, source = ''default'',
                messageType = detectMessageType userMessage,
                promptTokens = 50, completionTokens = 20, totalTokens = 70,
                model = ''pdf-default-response''\<rparr>
          else \<lparr>message = notFound_answer, confidence = 3 / 10, source = ''default'',
                messageType = ''notFound'',
                promptTokens = 30, completionTokens = 15, totalTokens = 45,
                model = ''pdf-notfound-response''\<rparr>)"
proof (cases "detectMessageType userMessage \<in> {''greeting'', ''thanks'', ''goodbye''}")
  case True
  with assms show ?thesis
    unfolding generateChatResponse_def Let_def by (simp only: set_simps if_True simp_thms)
next
  case False
  from assms have skip: "\<not> (context \<noteq> [] \<and> length (trim context) > 0)" by auto
  from False show ?thesis
    unfolding generateChatResponse_def Let_def
    by (simp only: set_simps skip if_False simp_thms sum.case option.case)
qed

text \<open>
  Claim C4, as the code has it. With no matches the context is empty, and on an empty or
  blank context the answer depends on the type of the message: a greeting, thanks or
  goodbye gets the default answer of its type with confidence 0.8; every other message
  gets the not-found message with confidence 0.3. No error is raised.
\<close>

theorem answer_without_matches:
  "answer analyse userMessage [] =
     Inr (if detectMessageType userMessage \<in> {''greeting'', ''thanks'', ''goodbye''}
          then \<lparr>message = getDefaultAnswer (detectMessageType userMessage),
                confidence = 8 / 10, source = ''default'',
                messageType = detectMessageType userMessage,
                promptTokens = 50, completionTokens = 20, totalTokens = 70,
                model = ''pdf-default-response''\<rparr>
          else \<lparr>message = notFound_answer, confidence = 3 / 10, source = ''default'',
                messageType = ''notFound'',
                promptTokens = 30, completionTokens = 15, totalTokens = 45,
                model = ''pdf-notfound-response''\<rparr>)
   \<and> (context = [] \<or> length (trim context) = 0 \<longrightarrow>
        generateChatResponse analyse userMessage context = answer analyse userMessage [])"
proof -
  have "generateChatResponse analyse userMessage context = answer analyse userMessage []"
    if "context = [] \<or> length (trim context) = 0"
    unfolding answer_def context_of_no_matches
    using generateChatResponse_blank_context [OF that, of analyse userMessage]
      generateChatResponse_blank_context [of "[]" analyse userMessage]
    by simp
  moreover have "answer analyse userMessage [] =
     Inr (if detectMessageType userMessage \<in> {''greeting'', ''thanks'', ''goodbye''}
          then \<lparr>message = getDefaultAnswer (detectMessageType userMessage),
                confidence = 8 / 10, source = ''default'',
                messageType = detectMessageType userMessage,
                promptTokens = 50, completionTokens = 20, totalTokens = 70,
                model = ''pdf-default-response''\<rparr>
          else \<lparr>message = notFound_answer, confidence = 3 / 10, source = ''default'',
                messageType = ''notFound'',
                promptTokens = 30, completionTokens = 15, totalTokens = 45,
                model = ''pdf-notfound-response''\<rparr>)"
    unfolding answer_def context_of_no_matches
    by (rule generateChatResponse_blank_context) simp
  ultimately show ?thesis by blast
qed

lemma detect_refund_question:
  "detectMessageType ''what is your refund policy'' = ''notFound''"
  by (simp add: detectMessageType_def toLowerCase_def lower_char_def)

lemma detect_thanks: "detectMessageType ''thanks a lot'' = ''thanks''"
  by (simp add: detectMessageType_def toLowerCase_def lower_char_def)

lemma detect_hello: "detectMessageType ''hello'' = ''greeting''"
  by (simp add: detectMessageType_def toLowerCase_def lower_char_def)

theorem answer_without_matches_witness:
  "answer no_relevant_line ''what is your refund policy'' [] =
     Inr \<lparr>message = notFound_answer, confidence = 3 / 10, source = ''default'',
          messageType = ''notFound'',
          promptTokens = 30, completionTokens = 15, totalTokens = 45,
          model = ''pdf-notfound-response''\<rparr>
   \<and> answer no_relevant_line ''thanks a lot'' [] =
     Inr \<lparr>message = ''You're very welcome! I'm glad I could help. Is there anything else you'd like to know?'',
          confidence = 8 / 10, source = ''default'', messageType = ''thanks'',
          promptTokens = 50, completionTokens = 20, totalTokens = 70,
          model = ''pdf-default-response''\<rparr>
   \<and> length (trim [CHR '' '', CHR 0x0A]) = 0
   \<and> generateChatResponse no_relevant_line ''thanks a lot'' [CHR '' '', CHR 0x0A]
       = answer no_relevant_line ''thanks a lot'' []"
proof -
  have blank: "length (trim [CHR '' '', CHR 0x0A]) = 0"
    by (simp add: trim_def isSpace_def)
  have thanks: "getDefaultAnswer ''thanks'' = ''You're very welcome! I'm glad I could help. Is there anything else you'd like to know?''"
    by (simp add: getDefaultAnswer_def defaultAnswers_def)
  from answer_without_matches [of no_relevant_line "''what is your refund policy''" "[]"]
  have question: "answer no_relevant_line ''what is your refund policy'' [] =
     Inr \<lparr>message = notFound_answer, confidence = 3 / 10, source = ''default'',
          messageType = ''notFound'',
          promptTokens = 30, completionTokens = 15, totalTokens = 45,
          model = ''pdf-notfound-response''\<rparr>"
    by (simp add: detect_refund_question)
  from answer_without_matches [of no_relevant_line "''thanks a lot''" "[CHR '' '', CHR 0x0A]"]
  have "answer no_relevant_line ''thanks a lot'' [] =
     Inr \<lparr>message = ''You're very welcome! I'm glad I could help. Is there anything else you'd like to know?'',
          confidence = 8 / 10, source = ''default'', messageType = ''thanks'',
          promptTokens = 50, completionTokens = 20, totalTokens = 70,
          model = ''pdf-default-response''\<rparr>"
    and "generateChatResponse no_relevant_line ''thanks a lot'' [CHR '' '', CHR 0x0A]
       = answer no_relevant_line ''thanks a lot'' []"
    using blank by (simp_all add: detect_thanks thanks)
  with question blank show ?thesis by (intro conjI)
qed

text \<open>
  Claim C4 as stated fails: the greeting "hello" with no matches is answered with the
  greeting default and confidence 0.8, not with the not-found message and 0.3.
\<close>

theorem greeting_without_matches_not_notFound:
  "answer no_relevant_line ''hello'' [] =
     Inr \<lparr>message = ''Hello! How can I help you today?'', confidence = 8 / 10,
          source = ''default'', messageType = ''greeting'',
          promptTokens = 50, completionTokens = 20, totalTokens = 70,
          model = ''pdf-default-response''\<rparr>"
  by (simp add: answer_def context_of_def generateChatResponse_def detect_hello
      getDefaultAnswer_def defaultAnswers_def trim_def)

end
